theory Spec2Isabelle
  imports Complex_Main
begin

section \<open>Data model\<close>

text \<open>
  The schema model of \<^verbatim>\<open>script.js\<close>. A column is the object
  \<^verbatim>\<open>{ name, type, notNull, defaultValue }\<close> built by \<^verbatim>\<open>parseSchema\<close>;
  \<^verbatim>\<open>defaultValue\<close> is \<^verbatim>\<open>null\<close> (here \<open>None\<close>) or a string.
  A type definition is \<^verbatim>\<open>{ type: 'enum', values }\<close> or
  \<^verbatim>\<open>{ type: 'composite', definition }\<close>.
  The own properties of the two objects \<^verbatim>\<open>schema.types\<close> and
  \<^verbatim>\<open>schema.tables\<close> are association lists in the order in which
  \<^verbatim>\<open>Object.entries\<close> enumerates them; the keys of a JavaScript object are unique,
  which is the predicate \<open>wf_schema\<close>.
  Both objects are created by the literal \<^verbatim>\<open>{}\<close> (line 339), so they inherit from
  \<^verbatim>\<open>Object.prototype\<close>, unless an assignment to the key \<^verbatim>\<open>__proto__\<close> has made
  another object their prototype: \<open>typesProto\<close> and \<open>tablesProto\<close> are \<open>None\<close> for
  \<^verbatim>\<open>Object.prototype\<close> and otherwise hold the type definition, or the column array,
  that is the prototype. A read \<^verbatim>\<open>obj[key]\<close> looks among the own keys first and
  then along the prototype chain (section \<open>JavaScript objects\<close>).
\<close>

record column =
  name :: string
  type :: string
  notNull :: bool
  defaultValue :: "string option"

datatype typeDef = Enum "string list" | Composite string

record schema =
  types :: "(string \<times> typeDef) list"
  tables :: "(string \<times> column list) list"
  typesProto :: "typeDef option"
  tablesProto :: "column list option"

definition wf_schema :: "schema \<Rightarrow> bool" where
  "wf_schema S \<longleftrightarrow> distinct (map fst (types S)) \<and> distinct (map fst (tables S))"

text \<open>
  Errors are values. \<open>Error m\<close> is \<^verbatim>\<open>throw new Error(m)\<close>; \<open>TypeError m\<close> is the
  exception the engine raises when a property of \<^verbatim>\<open>undefined\<close> is read.
\<close>

datatype error = Error string | TypeError string

fun message :: "error \<Rightarrow> string" where
  "message (Error m) = m"
| "message (TypeError m) = m"

text \<open>JavaScript truthiness of a value that is \<^verbatim>\<open>null\<close> or a string.\<close>

fun truthy :: "string option \<Rightarrow> bool" where
  "truthy None = False"
| "truthy (Some s) = (s \<noteq> [])"

section \<open>Column similarity\<close>

text \<open>
  \<^verbatim>\<open>columnSimilarity\<close> (script.js, lines 79-95). The two \<^verbatim>\<open>Set\<close>s of names are
  duplicate-free lists; only their sizes are used. The quotient of the two sizes is a
  rational number: the comparisons of the source (with 0.7, 0.5, 0.3 and between two
  quotients) compare correctly rounded doubles of quotients of small naturals, which
  order as the rationals do.
\<close>

definition columnSimilarity :: "column list \<Rightarrow> column list \<Rightarrow> rat" where
  "columnSimilarity oldCols newCols =
     (if oldCols = [] \<and> newCols = [] then 1
      else if oldCols = [] \<or> newCols = [] then 0
      else
        let oldNames = remdups (map name oldCols);
            newNames = remdups (map name newCols);
            intersection = length (filter (\<lambda>n. n \<in> set newNames) oldNames);
            union = length (remdups (oldNames @ newNames));
            similarity = of_nat intersection / of_nat union
        in if intersection < 3 \<and> similarity < 7 / 10 then 0 else similarity)"


section \<open>Strings and regular expressions\<close>

text \<open>
  A JavaScript string is a list of characters; the model covers texts whose code units
  are below 256, so the white space of \<^verbatim>\<open>trim\<close> and of \<^verbatim>\<open>\s\<close> is
  tab, line feed, vertical tab, form feed, carriage return, space and no-break space,
  and the line terminators, which \<^verbatim>\<open>.\<close> does not match, are line feed and
  carriage return. \<^verbatim>\<open>toUpperCase\<close> is modelled on the ASCII letters, which is what
  the comparisons of the source with ASCII keywords depend on.
\<close>

abbreviation apos :: char where "apos \<equiv> CHR 0x27"
abbreviation LF :: char where "LF \<equiv> CHR 0x0A"

definition isSpace :: "char \<Rightarrow> bool" where
  "isSpace c \<longleftrightarrow> c \<in> set [CHR 0x09, CHR 0x0A, CHR 0x0B, CHR 0x0C, CHR 0x0D, CHR 0x20, CHR 0xA0]"

definition isLineTerminator :: "char \<Rightarrow> bool" where
  "isLineTerminator c \<longleftrightarrow> c \<in> set [CHR 0x0A, CHR 0x0D]"

definition trim :: "string \<Rightarrow> string" where
  "trim s = rev (dropWhile isSpace (rev (dropWhile isSpace s)))"

definition upperChar :: "char \<Rightarrow> char" where
  "upperChar c =
     (case map_of (zip ''abcdefghijklmnopqrstuvwxyz'' ''ABCDEFGHIJKLMNOPQRSTUVWXYZ'') c of
        Some u \<Rightarrow> u
      | None \<Rightarrow> c)"

definition toUpperCase :: "string \<Rightarrow> string" where
  "toUpperCase s = map upperChar s"

fun join :: "string \<Rightarrow> string list \<Rightarrow> string" where
  "join sep [] = []"
| "join sep [x] = x"
| "join sep (x # y # ys) = x @ sep @ join sep (y # ys)"

text \<open>\<^verbatim>\<open>String(n)\<close> for a natural number: its decimal digits.\<close>

definition digitChar :: "nat \<Rightarrow> char" where
  "digitChar d = ''0123456789'' ! d"

function numberToString :: "nat \<Rightarrow> string" where
  "numberToString n = (if n < 10 then [digitChar n] else numberToString (n div 10) @ [digitChar (n mod 10)])"
  by pat_completeness auto
termination
  by (relation "measure id") auto

declare numberToString.simps [simp del]

text \<open>
  The regular expressions of the source are terms of \<open>rx\<close>, run by a backtracking
  matcher. \<open>rx_match r s caps\<close> lists, in the order in which a backtracking engine tries
  them, the ways in which \<open>r\<close> matches a prefix of \<open>s\<close>: each is the rest of the input
  after the match, with the capture groups set so far (latest first).
  \<open>LitI\<close> is a literal under the flag \<^verbatim>\<open>i\<close>. A repetition does not iterate over an
  empty match, as in ECMAScript.
\<close>

datatype rx =
    Eps
  | Lit char
  | LitI char
  | Dot
  | Space
  | NonSpace
  | OneOf "char list"
  | NoneOf "char list"
  | Seq rx rx
  | Alt rx rx
  | Star rx
  | LazyStar rx
  | Opt rx
  | Group nat rx
  | NotAhead rx
  | EndOfInput

type_synonym captures = "(nat \<times> string) list"

fun rx_char :: "(char \<Rightarrow> bool) \<Rightarrow> string \<Rightarrow> captures \<Rightarrow> (string \<times> captures) list" where
  "rx_char p [] caps = []"
| "rx_char p (x # xs) caps = (if p x then [(xs, caps)] else [])"

function rx_match :: "rx \<Rightarrow> string \<Rightarrow> captures \<Rightarrow> (string \<times> captures) list" where
  "rx_match Eps s caps = [(s, caps)]"
| "rx_match (Lit c) s caps = rx_char (\<lambda>x. x = c) s caps"
| "rx_match (LitI c) s caps = rx_char (\<lambda>x. upperChar x = upperChar c) s caps"
| "rx_match Dot s caps = rx_char (\<lambda>x. \<not> isLineTerminator x) s caps"
| "rx_match Space s caps = rx_char isSpace s caps"
| "rx_match NonSpace s caps = rx_char (\<lambda>x. \<not> isSpace x) s caps"
| "rx_match (OneOf cs) s caps = rx_char (\<lambda>x. x \<in> set cs) s caps"
| "rx_match (NoneOf cs) s caps = rx_char (\<lambda>x. x \<notin> set cs) s caps"
| "rx_match (Seq r1 r2) s caps =
     concat (map (\<lambda>(s', caps'). rx_match r2 s' caps') (rx_match r1 s caps))"
| "rx_match (Alt r1 r2) s caps = rx_match r1 s caps @ rx_match r2 s caps"
| "rx_match (Star r) s caps =
     concat (map (\<lambda>(s', caps'). if length s' < length s then rx_match (Star r) s' caps' else [])
                 (rx_match r s caps))
     @ [(s, caps)]"
| "rx_match (LazyStar r) s caps =
     (s, caps) #
     concat (map (\<lambda>(s', caps'). if length s' < length s then rx_match (LazyStar r) s' caps' else [])
                 (rx_match r s caps))"
| "rx_match (Opt r) s caps = rx_match r s caps @ [(s, caps)]"
| "rx_match (Group n r) s caps =
     map (\<lambda>(s', caps'). (s', (n, take (length s - length s') s) # caps')) (rx_match r s caps)"
| "rx_match (NotAhead r) s caps = (if rx_match r s caps = [] then [(s, caps)] else [])"
| "rx_match EndOfInput s caps = (if s = [] then [(s, caps)] else [])"
  by pat_completeness auto
termination
  by (relation "inv_image (less_than <*lex*> less_than) (\<lambda>(r, s, caps). (size r, length s))") auto

text \<open>
  The equations of the two repetitions apply to every input and would unfold for ever;
  they are used through the lemmas below, one character at a time.
\<close>

declare rx_match.simps(11) [simp del]
declare rx_match.simps(12) [simp del]

definition Plus :: "rx \<Rightarrow> rx" where
  "Plus r = Seq r (Star r)"

definition seqs :: "rx list \<Rightarrow> rx" where
  "seqs rs = foldr Seq rs Eps"

definition lits :: "string \<Rightarrow> rx" where
  "lits s = seqs (map Lit s)"

definition litsI :: "string \<Rightarrow> rx" where
  "litsI s = seqs (map LitI s)"

text \<open>The first way in which \<open>r\<close> matches at the start of \<open>s\<close>.\<close>

definition rx_exec :: "rx \<Rightarrow> string \<Rightarrow> (string \<times> captures) option" where
  "rx_exec r s = (case rx_match r s [] of [] \<Rightarrow> None | m # _ \<Rightarrow> Some m)"

text \<open>
  \<^verbatim>\<open>s.match(r)\<close> without the flag \<^verbatim>\<open>g\<close>: the leftmost position at which \<open>r\<close>
  matches. The result is the text in front of the match, the rest after it and the captures.
\<close>

fun rx_search :: "rx \<Rightarrow> string \<Rightarrow> string \<Rightarrow> (string \<times> string \<times> captures) option" where
  "rx_search r front [] =
     (case rx_exec r [] of Some (rest, caps) \<Rightarrow> Some (rev front, rest, caps) | None \<Rightarrow> None)"
| "rx_search r front (x # xs) =
     (case rx_exec r (x # xs) of
        Some (rest, caps) \<Rightarrow> Some (rev front, rest, caps)
      | None \<Rightarrow> rx_search r (x # front) xs)"

definition rx_find :: "rx \<Rightarrow> string \<Rightarrow> captures option" where
  "rx_find r s = (case rx_search r [] s of Some (front, rest, caps) \<Rightarrow> Some caps | None \<Rightarrow> None)"

text \<open>\<^verbatim>\<open>/^.../.test(s)\<close>: without the flag \<^verbatim>\<open>m\<close>, \<^verbatim>\<open>^\<close> holds at position 0 only.\<close>

definition rx_test_start :: "rx \<Rightarrow> string \<Rightarrow> bool" where
  "rx_test_start r s \<longleftrightarrow> rx_exec r s \<noteq> None"

text \<open>\<^verbatim>\<open>s.replace(r, rep)\<close> without the flag \<^verbatim>\<open>g\<close>: the leftmost match only.\<close>

definition rx_replace :: "rx \<Rightarrow> string \<Rightarrow> string \<Rightarrow> string" where
  "rx_replace r rep s =
     (case rx_search r [] s of Some (front, rest, caps) \<Rightarrow> front @ rep @ rest | None \<Rightarrow> s)"

text \<open>
  \<^verbatim>\<open>s.replace(r, rep)\<close> with the flag \<^verbatim>\<open>g\<close> and \<^verbatim>\<open>s.split(r)\<close>, for an
  expression that matches no empty text (every expression of the source that is used
  this way consumes at least one character).
\<close>

function rx_replace_all :: "rx \<Rightarrow> string \<Rightarrow> string \<Rightarrow> string" where
  "rx_replace_all r rep [] = []"
| "rx_replace_all r rep (x # xs) =
     (case rx_exec r (x # xs) of
        Some (rest, caps) \<Rightarrow>
          if length rest < length (x # xs) then rep @ rx_replace_all r rep rest
          else x # rx_replace_all r rep xs
      | None \<Rightarrow> x # rx_replace_all r rep xs)"
  by pat_completeness auto
termination
  by (relation "measure (\<lambda>(r, rep, s). length s)") auto

function rx_split_from :: "rx \<Rightarrow> string \<Rightarrow> string \<Rightarrow> string list" where
  "rx_split_from r cur [] = [rev cur]"
| "rx_split_from r cur (x # xs) =
     (case rx_exec r (x # xs) of
        Some (rest, caps) \<Rightarrow>
          if length rest < length (x # xs) then rev cur # rx_split_from r [] rest
          else rx_split_from r (x # cur) xs
      | None \<Rightarrow> rx_split_from r (x # cur) xs)"
  by pat_completeness auto
termination
  by (relation "measure (\<lambda>(r, cur, s). length s)") auto

definition rx_split :: "rx \<Rightarrow> string \<Rightarrow> string list" where
  "rx_split r s = rx_split_from r [] s"


section \<open>JavaScript objects\<close>

subsection \<open>Own keys\<close>

text \<open>
  The own keys of a plain object, in the order of \<^verbatim>\<open>Object.keys\<close> and
  \<^verbatim>\<open>Object.entries\<close>, after a value has been stored under an own key: the value of
  an existing own key is replaced in place; a new key that is an array index (the
  canonical decimal text of an integer below \<open>2^32 - 1\<close>) is enumerated before every
  other key, in ascending numeric order; any other new key is enumerated last. An
  assignment \<^verbatim>\<open>obj[key] = value\<close> stores an own key unless the key is
  \<^verbatim>\<open>__proto__\<close>; the assignments of the source are \<open>setType\<close> and \<open>setTable\<close>
  below, which treat that key apart.
\<close>

definition digitValue :: "char \<Rightarrow> int" where
  "digitValue c =
     (case map_of (zip ''0123456789'' [0, 1, 2, 3, 4, 5, 6, 7, 8, 9]) c of
        Some d \<Rightarrow> d
      | None \<Rightarrow> 0)"

definition decimalValue :: "string \<Rightarrow> int" where
  "decimalValue k = foldl (\<lambda>n c. 10 * n + digitValue c) 0 k"

definition isArrayIndex :: "string \<Rightarrow> bool" where
  "isArrayIndex k \<longleftrightarrow>
     k \<noteq> [] \<and> (\<forall>c \<in> set k. c \<in> set ''0123456789'') \<and> (k = ''0'' \<or> hd k \<noteq> CHR ''0'')
     \<and> decimalValue k < 4294967295"

fun insertIndexKey :: "string \<Rightarrow> 'a \<Rightarrow> (string \<times> 'a) list \<Rightarrow> (string \<times> 'a) list" where
  "insertIndexKey k v [] = [(k, v)]"
| "insertIndexKey k v ((k', v') # rest) =
     (if isArrayIndex k' \<and> decimalValue k' < decimalValue k
      then (k', v') # insertIndexKey k v rest
      else (k, v) # (k', v') # rest)"

definition setOwnKey :: "(string \<times> 'a) list \<Rightarrow> string \<Rightarrow> 'a \<Rightarrow> (string \<times> 'a) list" where
  "setOwnKey obj k v =
     (if map_of obj k \<noteq> None then map (\<lambda>(k', v'). if k' = k then (k', v) else (k', v')) obj
      else if isArrayIndex k then insertIndexKey k v obj
      else obj @ [(k, v)])"

subsection \<open>Inherited properties\<close>

text \<open>
  The properties of \<^verbatim>\<open>Object.prototype\<close> (ECMAScript, with Annex B):
  \<^verbatim>\<open>constructor\<close>, which is the function \<^verbatim>\<open>Object\<close>; the accessor
  \<^verbatim>\<open>__proto__\<close>, whose getter returns the prototype of the object that is read and
  whose setter replaces it; and ten methods. The methods of \<^verbatim>\<open>Array.prototype\<close> are
  those of ECMAScript 2023; its \<^verbatim>\<open>constructor\<close> is the function \<^verbatim>\<open>Array\<close>.
\<close>

definition objectPrototypeMethods :: "string list" where
  "objectPrototypeMethods =
     [''__defineGetter__'', ''__defineSetter__'', ''hasOwnProperty'', ''__lookupGetter__'',
      ''__lookupSetter__'', ''isPrototypeOf'', ''propertyIsEnumerable'', ''toString'',
      ''valueOf'', ''toLocaleString'']"

definition arrayPrototypeMethods :: "string list" where
  "arrayPrototypeMethods =
     [''at'', ''concat'', ''copyWithin'', ''fill'', ''find'', ''findIndex'', ''findLast'',
      ''findLastIndex'', ''lastIndexOf'', ''pop'', ''push'', ''reverse'', ''shift'',
      ''unshift'', ''slice'', ''sort'', ''splice'', ''includes'', ''indexOf'', ''join'',
      ''keys'', ''entries'', ''values'', ''forEach'', ''filter'', ''flat'', ''flatMap'',
      ''map'', ''every'', ''some'', ''reduce'', ''reduceRight'', ''toLocaleString'',
      ''toString'', ''toReversed'', ''toSorted'', ''toSpliced'', ''with'']"

text \<open>
  The values that a read \<^verbatim>\<open>schema.types[key]\<close> can give: \<^verbatim>\<open>undefined\<close>; a type
  definition (an own property, or the prototype itself through \<^verbatim>\<open>__proto__\<close>); the
  string \<^verbatim>\<open>type\<close> or \<^verbatim>\<open>definition\<close>, or the array \<^verbatim>\<open>values\<close>, of a type
  definition that is the prototype; the function \<^verbatim>\<open>Object\<close>; a method of
  \<^verbatim>\<open>Object.prototype\<close>; the object \<^verbatim>\<open>Object.prototype\<close>.
\<close>

datatype jsValue =
    Undefined
  | TypeDefObject typeDef
  | StringValue string
  | StringArray "string list"
  | ObjectConstructor
  | BuiltinFunction string
  | ObjectPrototype

fun truthyValue :: "jsValue \<Rightarrow> bool" where
  "truthyValue Undefined = False"
| "truthyValue (StringValue s) = (s \<noteq> [])"
| "truthyValue (TypeDefObject td) = True"
| "truthyValue (StringArray vs) = True"
| "truthyValue ObjectConstructor = True"
| "truthyValue (BuiltinFunction f) = True"
| "truthyValue ObjectPrototype = True"

text \<open>
  A read of \<open>key\<close> that reaches \<^verbatim>\<open>Object.prototype\<close>; \<open>receiverProto\<close> is the
  prototype of the object on which the read started, which the getter of
  \<^verbatim>\<open>__proto__\<close> returns.
\<close>

definition objectPrototypeGet :: "jsValue \<Rightarrow> string \<Rightarrow> jsValue" where
  "objectPrototypeGet receiverProto key =
     (if key = ''constructor'' then ObjectConstructor
      else if key = ''__proto__'' then receiverProto
      else if key \<in> set objectPrototypeMethods then BuiltinFunction key
      else Undefined)"

text \<open>\<^verbatim>\<open>schema.types[key]\<close>\<close>

definition typesGet :: "schema \<Rightarrow> string \<Rightarrow> jsValue" where
  "typesGet sch key =
     (case map_of (types sch) key of
        Some td \<Rightarrow> TypeDefObject td
      | None \<Rightarrow>
          (case typesProto sch of
             None \<Rightarrow> objectPrototypeGet ObjectPrototype key
           | Some (Enum vs) \<Rightarrow>
               if key = ''type'' then StringValue ''enum''
               else if key = ''values'' then StringArray vs
               else objectPrototypeGet (TypeDefObject (Enum vs)) key
           | Some (Composite d) \<Rightarrow>
               if key = ''type'' then StringValue ''composite''
               else if key = ''definition'' then StringValue d
               else objectPrototypeGet (TypeDefObject (Composite d)) key))"

text \<open>
  \<^verbatim>\<open>v.values\<close> for a value \<open>v\<close> of \<^verbatim>\<open>schema.types[key]\<close>, as far as the source uses
  it: \<open>None\<close> is \<^verbatim>\<open>undefined\<close>; otherwise the list has the \<^verbatim>\<open>length\<close> of the
  property and its elements at the indexes below it, \<open>None\<close> for \<^verbatim>\<open>undefined\<close>.
  The values of an enum are strings; \<^verbatim>\<open>Object.values\<close> is a function of one
  parameter, so its \<^verbatim>\<open>length\<close> is 1 and it has no element 0; the \<^verbatim>\<open>values\<close> of an
  array is the method \<^verbatim>\<open>Array.prototype.values\<close>, of no parameter; a composite type,
  a string, any other function and \<^verbatim>\<open>Object.prototype\<close> have no such property.
\<close>

fun valuesProperty :: "jsValue \<Rightarrow> string option list option" where
  "valuesProperty (TypeDefObject (Enum vs)) = Some (map Some vs)"
| "valuesProperty ObjectConstructor = Some [None]"
| "valuesProperty (StringArray vs) = Some []"
| "valuesProperty (TypeDefObject (Composite d)) = None"
| "valuesProperty (StringValue s) = None"
| "valuesProperty (BuiltinFunction f) = None"
| "valuesProperty ObjectPrototype = None"
| "valuesProperty Undefined = None"

text \<open>\<^verbatim>\<open>v.definition\<close>: only a composite type has it.\<close>

fun definitionProperty :: "jsValue \<Rightarrow> string option" where
  "definitionProperty (TypeDefObject (Composite d)) = Some d"
| "definitionProperty (TypeDefObject (Enum vs)) = None"
| "definitionProperty (StringValue s) = None"
| "definitionProperty (StringArray vs) = None"
| "definitionProperty ObjectConstructor = None"
| "definitionProperty (BuiltinFunction f) = None"
| "definitionProperty ObjectPrototype = None"
| "definitionProperty Undefined = None"

text \<open>
  The truthiness of \<^verbatim>\<open>schema.tables[key]\<close>. An own property is an array, which is
  truthy. Every property of \<^verbatim>\<open>Object.prototype\<close> is a function or, for
  \<^verbatim>\<open>__proto__\<close>, an object. When an array of columns is the prototype, its
  \<^verbatim>\<open>length\<close> is truthy unless it is 0, its elements are column objects, the
  properties of \<^verbatim>\<open>Array.prototype\<close> are functions, and \<^verbatim>\<open>__proto__\<close> gives the
  array.
\<close>

definition tableKnown :: "schema \<Rightarrow> string \<Rightarrow> bool" where
  "tableKnown sch key \<longleftrightarrow>
     (if map_of (tables sch) key \<noteq> None then True
      else
        (case tablesProto sch of
           None \<Rightarrow> key \<in> set (''constructor'' # ''__proto__'' # objectPrototypeMethods)
         | Some cols \<Rightarrow>
             if key = ''length'' then cols \<noteq> []
             else if isArrayIndex key \<and> decimalValue key < int (length cols) then True
             else key \<in> set (''constructor'' # arrayPrototypeMethods)
                  \<or> key \<in> set (''__proto__'' # objectPrototypeMethods)))"

text \<open>
  The assignments \<^verbatim>\<open>schema.types[typeName] = ...\<close> (lines 381, 384) and
  \<^verbatim>\<open>schema.tables[tableName] = columns\<close> (lines 460, 463). The key
  \<^verbatim>\<open>__proto__\<close>, when it is not an own key, reaches the setter of
  \<^verbatim>\<open>Object.prototype\<close>: the value becomes the prototype and no own key is created.
  Every other inherited property is a writable data property, so the assignment creates
  an own key.
\<close>

definition setType :: "schema \<Rightarrow> string \<Rightarrow> typeDef \<Rightarrow> schema" where
  "setType sch typeName td =
     (if typeName = ''__proto__'' \<and> map_of (types sch) typeName = None
      then sch\<lparr>typesProto := Some td\<rparr>
      else sch\<lparr>types := setOwnKey (types sch) typeName td\<rparr>)"

definition setTable :: "schema \<Rightarrow> string \<Rightarrow> column list \<Rightarrow> schema" where
  "setTable sch tableName cols =
     (if tableName = ''__proto__'' \<and> map_of (tables sch) tableName = None
      then sch\<lparr>tablesProto := Some cols\<rparr>
      else sch\<lparr>tables := setOwnKey (tables sch) tableName cols\<rparr>)"


section \<open>The differencer\<close>

text \<open>
  \<^verbatim>\<open>generateSchemaAltersInternal\<close> (script.js, lines 43-336) pushes onto one array
  \<^verbatim>\<open>commands\<close> in seven consecutive passes. Each pass is a function that returns
  the commands it pushes; the result is their concatenation. A \<^verbatim>\<open>throw\<close> discards
  the array, so a pass that can raise returns \<open>Inl\<close> of the error instead.
\<close>

subsection \<open>Type changes (lines 52-76)\<close>

text \<open>
  \<^verbatim>\<open>oldType.values[i] !== newType.values[i]\<close> for an index below
  \<^verbatim>\<open>oldType.values.length\<close>: beyond the end of the new list the right-hand side is
  \<^verbatim>\<open>undefined\<close>. \<open>oldValues\<close> is the property \<^verbatim>\<open>oldType.values\<close> as
  \<open>valuesProperty\<close> gives it.
\<close>

definition enumValueDiffers :: "string option list \<Rightarrow> string list \<Rightarrow> nat \<Rightarrow> bool" where
  "enumValueDiffers oldValues newValues i \<longleftrightarrow>
     oldValues ! i \<noteq> (if i < length newValues then Some (newValues ! i) else None)"

definition enumChanges :: "string \<Rightarrow> string option list \<Rightarrow> string list \<Rightarrow> string list" where
  "enumChanges typeName oldValues newValues =
     map (\<lambda>i. ''-- ERROR: Cannot modify existing enum value in '' @ typeName @ [LF])
         (filter (enumValueDiffers oldValues newValues) [0..<length oldValues])
     @ map (\<lambda>v. ''ALTER TYPE '' @ typeName @ '' ADD VALUE '' @ apos # v @ apos # '';'')
           (drop (length oldValues) newValues)"

text \<open>
  The loop over \<^verbatim>\<open>Object.entries(newSchema.types)\<close>. \<^verbatim>\<open>oldType\<close> is whatever the
  read \<^verbatim>\<open>oldSchema.types[typeName]\<close> gives, inherited properties included. When the
  new type is an enum and \<^verbatim>\<open>oldType.values\<close> is \<^verbatim>\<open>undefined\<close>, reading its
  \<^verbatim>\<open>length\<close> raises a \<^verbatim>\<open>TypeError\<close> (the message is V8's). When the new type is
  composite, \<^verbatim>\<open>oldType.definition\<close> is compared with the new definition;
  \<^verbatim>\<open>undefined\<close> differs from it. The \<^verbatim>\<open>break\<close> ends the loop.
\<close>

fun typeChanges :: "schema \<Rightarrow> (string \<times> typeDef) list \<Rightarrow> error + string list" where
  "typeChanges oldSchema [] = Inr []"
| "typeChanges oldSchema ((typeName, newType) # rest) =
     (if \<not> truthyValue (typesGet oldSchema typeName) then typeChanges oldSchema rest
      else
        (case newType of
           Enum newValues \<Rightarrow>
             (case valuesProperty (typesGet oldSchema typeName) of
                None \<Rightarrow> Inl (TypeError ''Cannot read properties of undefined (reading 'length')'')
              | Some oldValues \<Rightarrow>
                  (case typeChanges oldSchema rest of
                     Inl e \<Rightarrow> Inl e
                   | Inr commands \<Rightarrow> Inr (enumChanges typeName oldValues newValues @ commands)))
         | Composite newDefinition \<Rightarrow>
             if definitionProperty (typesGet oldSchema typeName) \<noteq> Some newDefinition
             then Inr [''-- ERROR: Composite type '' @ typeName @ '' definition changed'']
             else typeChanges oldSchema rest))"

subsection \<open>Rename detection (lines 97-130)\<close>

text \<open>
  The inner loop over the new tables, with the pair \<^verbatim>\<open>(bestMatch, bestScore)\<close> as
  its state. The same loop is written twice in the source, with the threshold 0.5 for
  renames (line 116) and 0.3 for replacements (line 269).
\<close>

fun findBestMatch ::
  "rat \<Rightarrow> column list \<Rightarrow> string set \<Rightarrow> (string \<times> column list) list \<Rightarrow>
   string option \<times> rat \<Rightarrow> string option \<times> rat" where
  "findBestMatch threshold oldColumns newTableMatched [] best = best"
| "findBestMatch threshold oldColumns newTableMatched ((newTableName, newColumns) # rest)
       (bestMatch, bestScore) =
     (if newTableName \<in> newTableMatched
      then findBestMatch threshold oldColumns newTableMatched rest (bestMatch, bestScore)
      else
        let score = columnSimilarity oldColumns newColumns
        in if score > bestScore \<and> score \<ge> threshold
           then findBestMatch threshold oldColumns newTableMatched rest (Some newTableName, score)
           else findBestMatch threshold oldColumns newTableMatched rest (bestMatch, bestScore))"

text \<open>
  The state of the outer loop: the two \<^verbatim>\<open>Set\<close>s, the \<^verbatim>\<open>Map\<close>
  \<^verbatim>\<open>renameMap\<close> in insertion order, and the commands pushed.
  \<^verbatim>\<open>if (newSchema.tables[oldTableName])\<close> (line 102) is \<open>tableKnown\<close>;
  \<^verbatim>\<open>if (bestMatch)\<close> is the truthiness of \<^verbatim>\<open>null\<close> or a string.
\<close>

record matching =
  oldTableMatched :: "string set"
  newTableMatched :: "string set"
  renameMap :: "(string \<times> string) list"
  renameCommands :: "string list"

fun detectRenames ::
  "schema \<Rightarrow> (string \<times> column list) list \<Rightarrow> matching \<Rightarrow> matching" where
  "detectRenames newSchema [] st = st"
| "detectRenames newSchema ((oldTableName, oldColumns) # rest) st =
     (if tableKnown newSchema oldTableName
      then detectRenames newSchema rest
             (st\<lparr>oldTableMatched := insert oldTableName (oldTableMatched st),
                 newTableMatched := insert oldTableName (newTableMatched st)\<rparr>)
      else
        (case fst (findBestMatch (1 / 2) oldColumns (newTableMatched st) (tables newSchema)
                     (None, 0)) of
           None \<Rightarrow> detectRenames newSchema rest st
         | Some bestMatch \<Rightarrow>
             if bestMatch = [] then detectRenames newSchema rest st
             else detectRenames newSchema rest
                    (st\<lparr>oldTableMatched := insert oldTableName (oldTableMatched st),
                        newTableMatched := insert bestMatch (newTableMatched st),
                        renameMap := renameMap st @ [(oldTableName, bestMatch)],
                        renameCommands := renameCommands st @
                          [''ALTER TABLE '' @ oldTableName @ '' RENAME TO '' @ bestMatch @ '';'']\<rparr>)))"

definition initialMatching :: matching where
  "initialMatching =
     \<lparr>oldTableMatched = {}, newTableMatched = {}, renameMap = [], renameCommands = []\<rparr>"

subsection \<open>Column changes of the matched tables (lines 132-238)\<close>

text \<open>
  \<^verbatim>\<open>new Map(oldColumns.map((c) => [c.name, c]))\<close>: a later column of the same name
  replaces an earlier one.
\<close>

definition columnMapGet :: "column list \<Rightarrow> string \<Rightarrow> column option" where
  "columnMapGet oldColumns n = map_of (rev (map (\<lambda>c. (name c, c)) oldColumns)) n"

text \<open>A template literal prints \<^verbatim>\<open>null\<close> as the text \<^verbatim>\<open>null\<close>.\<close>

fun interpolate :: "string option \<Rightarrow> string" where
  "interpolate None = ''null''"
| "interpolate (Some s) = s"

definition columnDef :: "column \<Rightarrow> string" where
  "columnDef col =
     name col @ '' '' @ type col
     @ (if truthy (defaultValue col) then '' DEFAULT '' @ interpolate (defaultValue col) else [])
     @ (if notNull col then '' NOT NULL'' else [])"

fun addColumns :: "string \<Rightarrow> column list \<Rightarrow> column list \<Rightarrow> error + string list" where
  "addColumns tableName oldColumns [] = Inr []"
| "addColumns tableName oldColumns (newCol # rest) =
     (case columnMapGet oldColumns (name newCol) of
        Some oldCol \<Rightarrow> addColumns tableName oldColumns rest
      | None \<Rightarrow>
          if notNull newCol \<and> \<not> truthy (defaultValue newCol)
          then Inl (Error (''New column '' @ tableName @ ''.'' @ name newCol
                           @ '' is NOT NULL without default''))
          else
            (case addColumns tableName oldColumns rest of
               Inl e \<Rightarrow> Inl e
             | Inr commands \<Rightarrow>
                 Inr ((''ALTER TABLE '' @ tableName @ '' ADD COLUMN '' @ columnDef newCol @ '';'')
                      # commands)))"

text \<open>\<^verbatim>\<open>newCol.type.replace(/\s+PRIMARY KEY$/, '')\<close>\<close>

definition primaryKeySuffixRx :: rx where
  "primaryKeySuffixRx = seqs [Plus Space, lits ''PRIMARY KEY'', EndOfInput]"

definition stripPrimaryKey :: "string \<Rightarrow> string" where
  "stripPrimaryKey t = rx_replace primaryKeySuffixRx [] t"

definition startsWith :: "string \<Rightarrow> string \<Rightarrow> bool" where
  "startsWith s p \<longleftrightarrow> take (length p) s = p"

fun includesText :: "string \<Rightarrow> string \<Rightarrow> bool" where
  "includesText [] p = (p = [])"
| "includesText (x # xs) p = (startsWith (x # xs) p \<or> includesText xs p)"

definition usingClause :: "string \<Rightarrow> string \<Rightarrow> string \<Rightarrow> string" where
  "usingClause columnName oldTypeUpper newTypeUpper =
     (if newTypeUpper = ''BOOLEAN'' then
        (if startsWith oldTypeUpper ''VARCHAR'' \<or> oldTypeUpper = ''TEXT''
         then '' USING CASE WHEN '' @ columnName @ '' = 'true' THEN true ELSE false END''
         else if oldTypeUpper \<in> set [''SMALLINT'', ''INTEGER'', ''BIGINT'', ''DECIMAL'', ''NUMERIC'',
                                     ''REAL'', ''DOUBLE PRECISION'', ''SERIAL'', ''BIGSERIAL'']
         then '' USING '' @ columnName @ '' != 0''
         else '' USING '' @ columnName @ ''::boolean'')
      else [])"

text \<open>The commands of lines 180-208: the default is dropped, the type altered, the default set.\<close>

definition alterTypeCommands :: "string \<Rightarrow> column \<Rightarrow> column \<Rightarrow> string list" where
  "alterTypeCommands tableName oldCol newCol =
     (if truthy (defaultValue oldCol)
      then [''ALTER TABLE '' @ tableName @ '' ALTER COLUMN '' @ name newCol @ '' DROP DEFAULT;'']
      else [])
     @ [''ALTER TABLE '' @ tableName @ '' ALTER COLUMN '' @ name newCol @ '' TYPE ''
        @ stripPrimaryKey (type newCol)
        @ usingClause (name newCol) (toUpperCase (type oldCol))
            (toUpperCase (stripPrimaryKey (type newCol)))
        @ '';'']
     @ (if truthy (defaultValue newCol)
        then [''ALTER TABLE '' @ tableName @ '' ALTER COLUMN '' @ name newCol @ '' SET DEFAULT ''
              @ interpolate (defaultValue newCol) @ '';'']
        else [])"

text \<open>The body of the loop of lines 172-230 for one new column.\<close>

definition modifyColumn :: "string \<Rightarrow> column list \<Rightarrow> column \<Rightarrow> string list" where
  "modifyColumn tableName oldColumns newCol =
     (case columnMapGet oldColumns (name newCol) of
        None \<Rightarrow> []
      | Some oldCol \<Rightarrow>
          (if type newCol \<noteq> type oldCol then
             alterTypeCommands tableName oldCol newCol
             @ (if includesText (type oldCol) ''PRIMARY KEY''
                then [''ALTER TABLE '' @ tableName @ '' DROP CONSTRAINT IF EXISTS '' @ tableName
                      @ ''_pkey;'']
                else [])
             @ (if includesText (type newCol) ''PRIMARY KEY''
                then [''ALTER TABLE '' @ tableName @ '' ADD PRIMARY KEY ('' @ name newCol @ '');'']
                else [])
           else if defaultValue newCol \<noteq> defaultValue oldCol then
             (if truthy (defaultValue newCol)
              then [''ALTER TABLE '' @ tableName @ '' ALTER COLUMN '' @ name newCol
                    @ '' SET DEFAULT '' @ interpolate (defaultValue newCol) @ '';'']
              else [''ALTER TABLE '' @ tableName @ '' ALTER COLUMN '' @ name newCol
                    @ '' DROP DEFAULT;''])
           else [])
          @ (if notNull newCol \<noteq> notNull oldCol
             then [''ALTER TABLE '' @ tableName @ '' ALTER COLUMN '' @ name newCol @ '' ''
                   @ (if notNull newCol then ''SET NOT NULL;'' else ''DROP NOT NULL;'')]
             else []))"

definition removeColumns :: "string \<Rightarrow> column list \<Rightarrow> column list \<Rightarrow> string list" where
  "removeColumns tableName oldColumns newColumns =
     map (\<lambda>oldCol. ''ALTER TABLE '' @ tableName @ '' DROP COLUMN '' @ name oldCol @ '';'')
         (filter (\<lambda>oldCol. \<not> (\<exists>c \<in> set newColumns. name c = name oldCol)) oldColumns)"

text \<open>
  The old name of a matched new table: the key of the first entry of \<^verbatim>\<open>renameMap\<close>
  whose value is the table, else the table's own name. The same search runs over
  \<^verbatim>\<open>tableReplacements\<close> at lines 287-293, starting from \<^verbatim>\<open>null\<close>.
\<close>

fun findOldName :: "(string \<times> string) list \<Rightarrow> string \<Rightarrow> string option" where
  "findOldName [] tableName = None"
| "findOldName ((oldName, newName) # rest) tableName =
     (if newName = tableName then Some oldName else findOldName rest tableName)"

text \<open>
  \<^verbatim>\<open>oldSchema.tables[oldTableName] || []\<close> (line 148) and
  \<^verbatim>\<open>oldSchema.tables[oldTableName]\<close> (line 310). At both places the name is an own key
  of \<^verbatim>\<open>oldSchema.tables\<close> (lemmas \<open>resolved_old_name_own\<close> and
  \<open>replacement_source_own\<close>), so the read is a read of an own property.
\<close>

definition tableColumns :: "(string \<times> column list) list \<Rightarrow> string \<Rightarrow> column list" where
  "tableColumns tbls n = (case map_of tbls n of Some cols \<Rightarrow> cols | None \<Rightarrow> [])"

definition resolveOldColumns ::
  "(string \<times> column list) list \<Rightarrow> (string \<times> string) list \<Rightarrow> string \<Rightarrow> column list" where
  "resolveOldColumns oldTables renames tableName =
     tableColumns oldTables
       (case findOldName renames tableName of Some oldName \<Rightarrow> oldName | None \<Rightarrow> tableName)"

definition changeTable :: "string \<Rightarrow> column list \<Rightarrow> column list \<Rightarrow> error + string list" where
  "changeTable tableName oldColumns newColumns =
     (case addColumns tableName oldColumns newColumns of
        Inl e \<Rightarrow> Inl e
      | Inr added \<Rightarrow>
          Inr (added
               @ concat (map (modifyColumn tableName oldColumns) newColumns)
               @ removeColumns tableName oldColumns newColumns))"

fun changeTables ::
  "(string \<times> column list) list \<Rightarrow> matching \<Rightarrow> (string \<times> column list) list \<Rightarrow> error + string list" where
  "changeTables oldTables st [] = Inr []"
| "changeTables oldTables st ((tableName, newColumns) # rest) =
     (if tableName \<notin> newTableMatched st then changeTables oldTables st rest
      else
        (case changeTable tableName (resolveOldColumns oldTables (renameMap st) tableName) newColumns of
           Inl e \<Rightarrow> Inl e
         | Inr commands \<Rightarrow>
             (case changeTables oldTables st rest of
                Inl e \<Rightarrow> Inl e
              | Inr others \<Rightarrow> Inr (commands @ others))))"

subsection \<open>New types (lines 240-249)\<close>

text \<open>\<^verbatim>\<open>if (!oldSchema.types[typeName])\<close> is the truthiness of the read.\<close>

fun createType :: "schema \<Rightarrow> string \<times> typeDef \<Rightarrow> string list" where
  "createType oldSchema (typeName, Enum vs) =
     (if \<not> truthyValue (typesGet oldSchema typeName)
      then [''CREATE TYPE '' @ typeName @ '' AS ENUM (''
            @ join '', '' (map (\<lambda>v. apos # v @ [apos]) vs) @ '');'']
      else [])"
| "createType oldSchema (typeName, Composite d) = []"

subsection \<open>Replacement matching (lines 251-279)\<close>

fun detectReplacements ::
  "string set \<Rightarrow> string set \<Rightarrow> (string \<times> column list) list \<Rightarrow> (string \<times> column list) list \<Rightarrow>
   (string \<times> string) list" where
  "detectReplacements oldMatched newMatched newTables [] = []"
| "detectReplacements oldMatched newMatched newTables ((oldTableName, oldColumns) # rest) =
     (if oldTableName \<in> oldMatched then detectReplacements oldMatched newMatched newTables rest
      else
        (case fst (findBestMatch (3 / 10) oldColumns newMatched newTables (None, 0)) of
           None \<Rightarrow> detectReplacements oldMatched newMatched newTables rest
         | Some bestMatch \<Rightarrow>
             if bestMatch = [] then detectReplacements oldMatched newMatched newTables rest
             else (oldTableName, bestMatch)
                  # detectReplacements oldMatched newMatched newTables rest))"

subsection \<open>New tables with data migration (lines 281-325)\<close>

definition migrateData :: "(string \<times> column list) list \<Rightarrow> string \<Rightarrow> string \<Rightarrow> column list \<Rightarrow> string list" where
  "migrateData oldTables oldTableName newTableName newColumns =
     (let oldColumns = tableColumns oldTables oldTableName;
          matchingColumns =
            map name (filter (\<lambda>newCol. columnMapGet oldColumns (name newCol) \<noteq> None) newColumns)
      in if length matchingColumns > 0
         then [''-- Migrate data from '' @ apos # oldTableName @ apos # '' to ''
               @ apos # newTableName @ [apos],
               ''INSERT INTO '' @ newTableName @ '' ('' @ join '', '' matchingColumns
               @ '') SELECT '' @ join '', '' matchingColumns @ '' FROM '' @ oldTableName @ '';'']
         else [])"

definition createTable ::
  "(string \<times> column list) list \<Rightarrow> string set \<Rightarrow> (string \<times> string) list \<Rightarrow>
   string \<times> column list \<Rightarrow> string list" where
  "createTable oldTables newMatched tableReplacements entry =
     (case entry of (newTableName, newColumns) \<Rightarrow>
        if newTableName \<in> newMatched then []
        else
          (''CREATE TABLE '' @ newTableName @ '' ('' @ [LF]
           @ join ('','' @ [LF]) (map (\<lambda>col. ''  '' @ columnDef col) newColumns)
           @ [LF] @ '');'')
          # (case findOldName tableReplacements newTableName of
               None \<Rightarrow> []
             | Some oldTableName \<Rightarrow>
                 if oldTableName = [] then []
                 else migrateData oldTables oldTableName newTableName newColumns))"

subsection \<open>Dropped tables (lines 327-333)\<close>

definition dropTable :: "string \<Rightarrow> string list" where
  "dropTable oldTableName =
     [''-- CAUTION: This will permanently delete table '' @ apos # oldTableName @ apos
      # '' and all its data!'',
      ''DROP TABLE '' @ oldTableName @ '';'']"

definition dropTables :: "string set \<Rightarrow> (string \<times> column list) list \<Rightarrow> string list" where
  "dropTables oldMatched oldTables =
     concat (map dropTable (filter (\<lambda>oldTableName. oldTableName \<notin> oldMatched) (map fst oldTables)))"

subsection \<open>The whole diff\<close>

definition matchTables :: "schema \<Rightarrow> schema \<Rightarrow> matching" where
  "matchTables oldSchema newSchema =
     detectRenames newSchema (tables oldSchema) initialMatching"

definition tableReplacements :: "schema \<Rightarrow> schema \<Rightarrow> (string \<times> string) list" where
  "tableReplacements oldSchema newSchema =
     (let st = matchTables oldSchema newSchema
      in detectReplacements (oldTableMatched st) (newTableMatched st)
           (tables newSchema) (tables oldSchema))"

definition generateSchemaAltersInternal :: "schema \<Rightarrow> schema \<Rightarrow> error + string list" where
  "generateSchemaAltersInternal oldSchema newSchema =
     (case typeChanges oldSchema (types newSchema) of
        Inl e \<Rightarrow> Inl e
      | Inr typeCommands \<Rightarrow>
          (let st = matchTables oldSchema newSchema
           in case changeTables (tables oldSchema) st (tables newSchema) of
                Inl e \<Rightarrow> Inl e
              | Inr tableCommands \<Rightarrow>
                  Inr (typeCommands
                       @ renameCommands st
                       @ tableCommands
                       @ concat (map (createType oldSchema) (types newSchema))
                       @ concat (map (createTable (tables oldSchema) (newTableMatched st)
                                        (tableReplacements oldSchema newSchema))
                                     (tables newSchema))
                       @ dropTables (oldTableMatched st) (tables oldSchema))))"


section \<open>The parser\<close>

subsection \<open>The regular expressions of \<^verbatim>\<open>parseSchema\<close>\<close>

text \<open>\<^verbatim>\<open>/--.*?\n/g\<close>\<close>

definition commentRx :: rx where
  "commentRx = seqs [Lit (CHR ''-''), Lit (CHR ''-''), LazyStar Dot, Lit LF]"

text \<open>\<^verbatim>\<open>/["`]/g\<close>\<close>

definition quoteRx :: rx where
  "quoteRx = OneOf [CHR 0x22, CHR 0x60]"

text \<open>\<^verbatim>\<open>/;(?![^()]*\))/\<close>\<close>

definition statementSeparatorRx :: rx where
  "statementSeparatorRx =
     Seq (Lit (CHR '';'')) (NotAhead (Seq (Star (NoneOf ''()'')) (Lit (CHR '')''))))"

text \<open>\<^verbatim>\<open>/\s+/g\<close> and \<^verbatim>\<open>/\s+/\<close>\<close>

definition spacesRx :: rx where
  "spacesRx = Plus Space"

text \<open>\<^verbatim>\<open>/^CREATE TYPE/i\<close>\<close>

definition createTypeStartRx :: rx where
  "createTypeStartRx = litsI ''CREATE TYPE''"

text \<open>\<^verbatim>\<open>/CREATE TYPE (\S+) AS (ENUM\s*\(([^)]+)\)|([^;]+))/i\<close>\<close>

definition createTypeRx :: rx where
  "createTypeRx =
     seqs [litsI ''CREATE TYPE '', Group 1 (Plus NonSpace), litsI '' AS '',
           Group 2
             (Alt (seqs [litsI ''ENUM'', Star Space, Lit (CHR ''(''),
                         Group 3 (Plus (NoneOf '')'')), Lit (CHR '')'')])
                  (Group 4 (Plus (NoneOf '';''))))]"

text \<open>\<^verbatim>\<open>/, ?/\<close>\<close>

definition enumSeparatorRx :: rx where
  "enumSeparatorRx = Seq (Lit (CHR '','')) (Opt (Lit (CHR '' '')))"

text \<open>\<^verbatim>\<open>/'/g\<close>\<close>

definition aposRx :: rx where
  "aposRx = Lit apos"

text \<open>\<^verbatim>\<open>/CREATE TABLE(?:\s+IF\s+NOT\s+EXISTS)?\s+(\S+)\s+\((.*)\)/i\<close>\<close>

definition createTableRx :: rx where
  "createTableRx =
     seqs [litsI ''CREATE TABLE'',
           Opt (seqs [Plus Space, litsI ''IF'', Plus Space, litsI ''NOT'', Plus Space,
                      litsI ''EXISTS'']),
           Plus Space, Group 1 (Plus NonSpace), Plus Space, Lit (CHR ''(''),
           Group 2 (Star Dot), Lit (CHR '')'')]"

text \<open>\<^verbatim>\<open>/^CREATE TABLE/i\<close>\<close>

definition createTableStartRx :: rx where
  "createTableStartRx = litsI ''CREATE TABLE''"

text \<open>\<^verbatim>\<open>/,(?![^(]*\))/\<close>\<close>

definition columnSeparatorRx :: rx where
  "columnSeparatorRx =
     Seq (Lit (CHR '','')) (NotAhead (Seq (Star (NoneOf ''('')) (Lit (CHR '')''))))"

text \<open>\<^verbatim>\<open>/^(PRIMARY|FOREIGN|CONSTRAINT|UNIQUE)/i\<close>\<close>

definition tableConstraintRx :: rx where
  "tableConstraintRx =
     Group 1 (Alt (litsI ''PRIMARY'') (Alt (litsI ''FOREIGN'')
                (Alt (litsI ''CONSTRAINT'') (litsI ''UNIQUE''))))"

subsection \<open>Columns (lines 418-456)\<close>

definition isConstraintKeyword :: "string \<Rightarrow> bool" where
  "isConstraintKeyword token \<longleftrightarrow>
     toUpperCase token \<in> set [''DEFAULT'', ''NOT'', ''NULL'', ''CHECK'']"

text \<open>
  The loop of lines 440-453 over the tokens from \<^verbatim>\<open>pos\<close> on. After
  \<^verbatim>\<open>DEFAULT\<close> the rest of the tokens is the default value and the loop ends.
\<close>

function parseConstraints :: "string \<Rightarrow> string list \<Rightarrow> column \<Rightarrow> error + column" where
  "parseConstraints tableName [] col = Inr col"
| "parseConstraints tableName (t # ts) col =
     (if toUpperCase t = ''NOT''
         \<and> (case ts of [] \<Rightarrow> False | t' # ts' \<Rightarrow> toUpperCase t' = ''NULL'')
      then parseConstraints tableName (tl ts) (col\<lparr>notNull := True\<rparr>)
      else if toUpperCase t = ''DEFAULT'' then
        (let dv = join '' '' ts
         in if dv = [] \<or> trim dv = []
            then Inl (Error (''Column '' @ apos # name col @ apos # '' in table ''
                             @ apos # tableName @ apos
                             # '' has DEFAULT keyword but no value specified''))
            else Inr (col\<lparr>defaultValue := Some dv\<rparr>))
      else parseConstraints tableName ts col)"
  by pat_completeness auto
termination
  by (relation "measure (\<lambda>(tableName, ts, col). length ts)") auto

definition parseColumn :: "string \<Rightarrow> string \<Rightarrow> error + column" where
  "parseColumn tableName def =
     (case rx_split spacesRx def of
        columnName # token # tokens \<Rightarrow>
          (let typeParts = takeWhile (\<lambda>t. \<not> isConstraintKeyword t) (token # tokens);
               constraints = dropWhile (\<lambda>t. \<not> isConstraintKeyword t) (token # tokens);
               columnType = join '' '' typeParts
           in if columnType = []
              then Inl (Error (''Column '' @ apos # columnName @ apos # '' in table ''
                               @ apos # tableName @ apos # '' has no type specified''))
              else parseConstraints tableName constraints
                     \<lparr>name = columnName, type = columnType, notNull = False,
                      defaultValue = None\<rparr>)
      | _ \<Rightarrow>
          Inl (Error (''Invalid column definition in table '' @ apos # tableName @ apos
                      # '': '' @ def)))"

fun parseColumns :: "string \<Rightarrow> string list \<Rightarrow> error + column list" where
  "parseColumns tableName [] = Inr []"
| "parseColumns tableName (def # defs) =
     (case parseColumn tableName def of
        Inl e \<Rightarrow> Inl e
      | Inr col \<Rightarrow>
          (case parseColumns tableName defs of
             Inl e \<Rightarrow> Inl e
           | Inr cols \<Rightarrow> Inr (col # cols)))"

subsection \<open>Statements (lines 361-465)\<close>

definition parseCreateType :: "schema \<Rightarrow> string \<Rightarrow> error + schema" where
  "parseCreateType sch s =
     (case rx_find createTypeRx s of
        None \<Rightarrow> Inl (Error (''Invalid CREATE TYPE syntax: '' @ take 50 s @ ''...''))
      | Some typeMatch \<Rightarrow>
          (let typeName = interpolate (map_of typeMatch 1)
           in if truthy (map_of typeMatch 3) then
                (let vs = map (\<lambda>v. trim (rx_replace_all aposRx [] v))
                              (rx_split enumSeparatorRx (interpolate (map_of typeMatch 3)))
                 in if length vs = 0
                    then Inl (Error (''ENUM type '' @ apos # typeName @ apos # '' has no values''))
                    else Inr (setType sch typeName (Enum vs)))
              else
                (case map_of typeMatch 4 of
                   None \<Rightarrow> Inl (TypeError ''Cannot read properties of undefined (reading 'trim')'')
                 | Some d \<Rightarrow>
                     Inr (setType sch typeName (Composite (trim d))))))"

definition parseCreateTable :: "schema \<Rightarrow> string \<Rightarrow> error + schema" where
  "parseCreateTable sch s =
     (case rx_find createTableRx s of
        None \<Rightarrow>
          if rx_test_start createTableStartRx s
          then Inl (Error (''Incomplete or invalid CREATE TABLE statement: '' @ take 50 s @ ''...''))
          else Inr sch
      | Some tableMatch \<Rightarrow>
          (let tableName = interpolate (map_of tableMatch 1);
               columnPart = interpolate (map_of tableMatch 2)
           in if columnPart = [] \<or> trim columnPart = []
              then Inl (Error (''Table '' @ apos # tableName @ apos # '' has no columns defined''))
              else
                (let columnDefs =
                       filter (\<lambda>x. \<not> rx_test_start tableConstraintRx x)
                              (map trim (rx_split columnSeparatorRx columnPart))
                 in if length columnDefs = 0
                    then Inl (Error (''Table '' @ apos # tableName @ apos
                                     # '' has no valid column definitions''))
                    else
                      (case parseColumns tableName columnDefs of
                         Inl e \<Rightarrow> Inl e
                       | Inr cols \<Rightarrow> Inr (setTable sch tableName cols)))))"

definition parseStatement :: "schema \<Rightarrow> string \<Rightarrow> error + schema" where
  "parseStatement sch stmt =
     (if stmt = [] then Inr sch
      else
        (let s = trim (rx_replace_all spacesRx '' '' stmt)
         in if rx_test_start createTypeStartRx s then parseCreateType sch s
            else parseCreateTable sch s))"

fun parseStatements :: "schema \<Rightarrow> string list \<Rightarrow> error + schema" where
  "parseStatements sch [] = Inr sch"
| "parseStatements sch (stmt # stmts) =
     (case parseStatement sch stmt of
        Inl e \<Rightarrow> Inl e
      | Inr sch' \<Rightarrow> parseStatements sch' stmts)"

subsection \<open>\<^verbatim>\<open>parseSchema\<close> (lines 338-468)\<close>

definition emptySchema :: schema where
  "emptySchema = \<lparr>types = [], tables = [], typesProto = None, tablesProto = None\<rparr>"

definition cleanStatement :: "string \<Rightarrow> string" where
  "cleanStatement statement =
     trim (rx_replace_all quoteRx [] (rx_replace_all commentRx [LF] statement))"

definition countChar :: "char \<Rightarrow> string \<Rightarrow> nat" where
  "countChar c s = length (filter (\<lambda>x. x = c) s)"

definition parseSchema :: "string \<Rightarrow> error + schema" where
  "parseSchema statement =
     (let cleaned = cleanStatement statement
      in if cleaned = [] then Inr emptySchema
         else
           (let openParens = countChar (CHR ''('') cleaned;
                closeParens = countChar (CHR '')'') cleaned
            in if openParens \<noteq> closeParens
               then Inl (Error (''Unbalanced parentheses: '' @ numberToString openParens
                                @ '' opening, '' @ numberToString closeParens @ '' closing''))
               else parseStatements emptySchema
                      (filter (\<lambda>s. s \<noteq> []) (map trim (rx_split statementSeparatorRx cleaned)))))"

section \<open>The boundary operation\<close>

text \<open>
  \<^verbatim>\<open>generateSchemaAlters\<close> (lines 13-41). \<open>generateSchemaAltersTry\<close> is the block of
  the \<^verbatim>\<open>try\<close> (lines 18-36): \<open>Inl\<close> is an error thrown inside it, \<open>Inr\<close> the array it
  returns. \<open>generateSchemaAlters\<close> is the whole function, with the same reading of its
  result: \<open>Inl\<close> would be an error that leaves the function. The \<^verbatim>\<open>catch\<close> (lines
  37-40) pushes one comment built from the message onto the array \<^verbatim>\<open>commands\<close>,
  which is still empty there, and returns it; nothing in it can throw.
\<close>

definition generateSchemaAltersTry :: "string \<Rightarrow> string \<Rightarrow> error + string list" where
  "generateSchemaAltersTry oldStatement newStatement =
     (case parseSchema oldStatement of
        Inl e \<Rightarrow> Inl e
      | Inr oldSchema \<Rightarrow>
          (case parseSchema newStatement of
             Inl e \<Rightarrow> Inl e
           | Inr newSchema \<Rightarrow>
               if length (tables oldSchema) = 0 \<and> length (types oldSchema) = 0
                  \<and> length (trim oldStatement) > 0
               then Inr [''-- ERROR: Old schema appears to be invalid or incomplete. No valid CREATE TABLE or CREATE TYPE statements found.'']
               else if length (tables newSchema) = 0 \<and> length (types newSchema) = 0
                  \<and> length (trim newStatement) > 0
               then Inr [''-- ERROR: New schema appears to be invalid or incomplete. No valid CREATE TABLE or CREATE TYPE statements found.'']
               else generateSchemaAltersInternal oldSchema newSchema))"

definition generateSchemaAlters :: "string \<Rightarrow> string \<Rightarrow> error + string list" where
  "generateSchemaAlters oldStatement newStatement =
     (case generateSchemaAltersTry oldStatement newStatement of
        Inl e \<Rightarrow> Inr [''-- ERROR: '' @ message e]
      | Inr commands \<Rightarrow> Inr commands)"


section \<open>Definitions used in the statements\<close>

text \<open>A column with a name and nothing else of interest, for the concrete instances.\<close>

definition plainColumn :: "string \<Rightarrow> column" where
  "plainColumn n = \<lparr>name = n, type = ''INT'', notNull = False, defaultValue = None\<rparr>"

text \<open>
  An entry of \<^verbatim>\<open>newSchema.types\<close> at which the loop of the type changes ends: the
  read \<^verbatim>\<open>oldSchema.types[typeName]\<close> is truthy, and either the new type is an enum
  and the value read has no \<^verbatim>\<open>values\<close> (the \<^verbatim>\<open>TypeError\<close>), or the new type is
  composite and the value read has not the same \<^verbatim>\<open>definition\<close> (the \<^verbatim>\<open>break\<close>).
\<close>

definition typeHalts :: "schema \<Rightarrow> string \<times> typeDef \<Rightarrow> bool" where
  "typeHalts oldSchema entry =
     (case entry of (typeName, newType) \<Rightarrow>
        truthyValue (typesGet oldSchema typeName)
        \<and> (case newType of
              Enum newValues \<Rightarrow> valuesProperty (typesGet oldSchema typeName) = None
            | Composite d \<Rightarrow> definitionProperty (typesGet oldSchema typeName) \<noteq> Some d))"

text \<open>
  The comparison of two enums in the words of the specification: the values are compared
  position by position up to the shorter of the two lengths, and every new value at or
  beyond the old length is added.
\<close>

definition spec_enumChanges :: "string \<Rightarrow> string list \<Rightarrow> string list \<Rightarrow> string list" where
  "spec_enumChanges typeName oldValues newValues =
     map (\<lambda>i. ''-- ERROR: Cannot modify existing enum value in '' @ typeName @ [LF])
         (filter (\<lambda>i. oldValues ! i \<noteq> newValues ! i)
                 [0..<min (length oldValues) (length newValues)])
     @ map (\<lambda>v. ''ALTER TYPE '' @ typeName @ '' ADD VALUE '' @ apos # v @ apos # '';'')
           (drop (length oldValues) newValues)"

text \<open>A line of the output that is the caution comment or the command of a dropped table.\<close>

definition isDropLine :: "string \<Rightarrow> bool" where
  "isDropLine c \<longleftrightarrow> startsWith c ''-- CAUTION'' \<or> startsWith c ''DROP TABLE ''"

text \<open>
  A text made of line comments only: every line is white space, then \<^verbatim>\<open>--\<close>, then a
  comment body, then a line feed; white space may follow the last line.
\<close>

fun commentLines :: "(string \<times> string) list \<Rightarrow> string \<Rightarrow> string" where
  "commentLines [] trailing = trailing"
| "commentLines ((indent, body) # ls) trailing =
     indent @ ''--'' @ body @ [LF] @ commentLines ls trailing"

text \<open>An error other than the report of an enum without values.\<close>

definition otherError :: "error \<Rightarrow> bool" where
  "otherError e \<longleftrightarrow> (\<forall>x. e \<noteq> Error (''ENUM type '' @ x))"

definition enumsNonEmpty :: "schema \<Rightarrow> bool" where
  "enumsNonEmpty sch \<longleftrightarrow>
     (\<forall>(n, t) \<in> set (types sch). t \<noteq> Enum []) \<and> typesProto sch \<noteq> Some (Enum [])"

section \<open>Column similarity: properties\<close>

lemma length_filter_mem_card:
  "distinct xs \<Longrightarrow> length (filter (\<lambda>n. n \<in> B) xs) = card (set xs \<inter> B)"
  by (metis distinct_card distinct_filter inf_commute inter_set_filter)

lemma columnSimilarity_nonempty:
  assumes "oldCols \<noteq> []" "newCols \<noteq> []"
  shows "columnSimilarity oldCols newCols =
     (let I = card (name ` set oldCols \<inter> name ` set newCols);
          U = card (name ` set oldCols \<union> name ` set newCols)
      in if I < 3 \<and> (of_nat I :: rat) / of_nat U < 7 / 10 then 0 else of_nat I / of_nat U)"
  using assms unfolding columnSimilarity_def Let_def
  by (simp add: length_filter_mem_card length_remdups_card_conv)

lemma columnSimilarity_range:
  "0 \<le> columnSimilarity oldCols newCols \<and> columnSimilarity oldCols newCols \<le> 1"
proof (cases "oldCols = [] \<or> newCols = []")
  case True
  then show ?thesis by (auto simp: columnSimilarity_def)
next
  case False
  let ?A = "name ` set oldCols" and ?B = "name ` set newCols"
  have fin: "finite (?A \<union> ?B)" by simp
  have "card (?A \<inter> ?B) \<le> card (?A \<union> ?B)"
    by (rule card_mono[OF fin]) auto
  moreover have "0 < card (?A \<union> ?B)"
    using False fin by (auto simp: card_gt_0_iff)
  ultimately have "(of_nat (card (?A \<inter> ?B)) :: rat) / of_nat (card (?A \<union> ?B)) \<le> 1"
    by simp
  moreover have "0 \<le> (of_nat (card (?A \<inter> ?B)) :: rat) / of_nat (card (?A \<union> ?B))" by simp
  ultimately show ?thesis
    using False by (simp add: columnSimilarity_nonempty Let_def)
qed

lemma columnSimilarity_sym:
  "columnSimilarity oldCols newCols = columnSimilarity newCols oldCols"
proof (cases "oldCols = [] \<or> newCols = []")
  case True
  then show ?thesis by (auto simp: columnSimilarity_def)
next
  case False
  then show ?thesis
    by (simp add: columnSimilarity_nonempty Let_def Int_commute Un_commute)
qed

text \<open>
  Claim C6. The similarity of two empty column lists is 1 and that of an empty and a
  non-empty list is 0. For two non-empty lists, with \<open>I\<close> the number of column names
  common to both and \<open>U\<close> the number of names of either, it is 0 when \<open>I < 3\<close> and
  \<open>I / U < 0.7\<close>, and \<open>I / U\<close> otherwise. It lies between 0 and 1 and is symmetric.
  No threshold of the callers is applied inside: two tables of seven columns that share
  three names score \<open>3 / 11\<close>, which is below both 0.5 and 0.3 and is returned as it is.
\<close>

theorem columnSimilarity_spec:
  "columnSimilarity [] [] = 1
   \<and> ((oldCols = []) \<noteq> (newCols = []) \<longrightarrow> columnSimilarity oldCols newCols = 0)
   \<and> (oldCols \<noteq> [] \<and> newCols \<noteq> [] \<longrightarrow>
        (let I = card (name ` set oldCols \<inter> name ` set newCols);
             U = card (name ` set oldCols \<union> name ` set newCols)
         in columnSimilarity oldCols newCols =
              (if I < 3 \<and> (of_nat I :: rat) / of_nat U < 7 / 10 then 0 else of_nat I / of_nat U)))
   \<and> 0 \<le> columnSimilarity oldCols newCols \<and> columnSimilarity oldCols newCols \<le> 1
   \<and> columnSimilarity oldCols newCols = columnSimilarity newCols oldCols
   \<and> columnSimilarity (map plainColumn [''a'', ''b'', ''c'', ''d'', ''e'', ''f'', ''g''])
        (map plainColumn [''a'', ''b'', ''c'', ''h'', ''i'', ''j'', ''k'']) = 3 / 11"
proof -
  have 1: "columnSimilarity [] [] = 1" by (simp add: columnSimilarity_def)
  have 2: "(oldCols = []) \<noteq> (newCols = []) \<longrightarrow> columnSimilarity oldCols newCols = 0"
    by (auto simp: columnSimilarity_def)
  have 3: "oldCols \<noteq> [] \<and> newCols \<noteq> [] \<longrightarrow>
        (let I = card (name ` set oldCols \<inter> name ` set newCols);
             U = card (name ` set oldCols \<union> name ` set newCols)
         in columnSimilarity oldCols newCols =
              (if I < 3 \<and> (of_nat I :: rat) / of_nat U < 7 / 10 then 0 else of_nat I / of_nat U))"
    using columnSimilarity_nonempty[of oldCols newCols] by (simp add: Let_def)
  have 4: "columnSimilarity (map plainColumn [''a'', ''b'', ''c'', ''d'', ''e'', ''f'', ''g''])
        (map plainColumn [''a'', ''b'', ''c'', ''h'', ''i'', ''j'', ''k'']) = 3 / 11"
    by (simp add: columnSimilarity_def plainColumn_def Let_def)
  show ?thesis
    using 1 2 3 4 columnSimilarity_range[of oldCols newCols]
      columnSimilarity_sym[of oldCols newCols]
    by blast
qed

theorem columnSimilarity_spec_witness:
  "map plainColumn [''id'', ''name'', ''mood''] \<noteq> []
   \<and> map plainColumn [''id'', ''name'', ''mood'', ''age''] \<noteq> []
   \<and> columnSimilarity (map plainColumn [''id'', ''name'', ''mood''])
        (map plainColumn [''id'', ''name'', ''mood'', ''age'']) = 3 / 4
   \<and> columnSimilarity (map plainColumn [''id'', ''name''])
        (map plainColumn [''id'', ''name'', ''age'']) = 0
   \<and> ((map plainColumn [''id''] = []) \<noteq> (([] :: column list) = []))
   \<and> columnSimilarity (map plainColumn [''id'']) [] = 0"
  using columnSimilarity_spec[of "map plainColumn [''id'', ''name'', ''mood'']"
          "map plainColumn [''id'', ''name'', ''mood'', ''age'']"]
        columnSimilarity_spec[of "map plainColumn [''id'', ''name'']"
          "map plainColumn [''id'', ''name'', ''age'']"]
        columnSimilarity_spec[of "map plainColumn [''id'']" "[]"]
  by (simp add: plainColumn_def Let_def card_insert_if)

section \<open>Type changes: properties\<close>

lemma typeChanges_append:
  "\<forall>e \<in> set front. \<not> typeHalts oldSchema e \<Longrightarrow>
   \<exists>c. typeChanges oldSchema front = Inr c
      \<and> typeChanges oldSchema (front @ rest) =
          (case typeChanges oldSchema rest of Inl e \<Rightarrow> Inl e | Inr c' \<Rightarrow> Inr (c @ c'))"
proof (induction front)
  case Nil
  then show ?case by (simp split: sum.splits)
next
  case (Cons e front)
  obtain n t where e: "e = (n, t)" by (cases e)
  from Cons obtain c where c: "typeChanges oldSchema front = Inr c"
      "typeChanges oldSchema (front @ rest) =
          (case typeChanges oldSchema rest of Inl e \<Rightarrow> Inl e | Inr c' \<Rightarrow> Inr (c @ c'))"
    by auto
  have nh: "\<not> typeHalts oldSchema (n, t)" using Cons.prems e by simp
  show ?case
    using nh c unfolding e
    by (auto simp: typeHalts_def split: option.splits typeDef.splits sum.splits if_splits)
qed

lemma enumErrors_replicate:
  "map (\<lambda>i. c) (filter P [0..<n]) = replicate (card {i. i < n \<and> P i}) c"
proof -
  have "length (filter P [0..<n]) = card {i. i < n \<and> P i}"
    by (simp add: length_filter_conv_card cong: conj_cong)
  then show ?thesis by (simp add: map_replicate_const)
qed

lemma gsai_Inr_types:
  "generateSchemaAltersInternal oldSchema newSchema = Inr commands \<Longrightarrow>
   \<exists>typeCommands others. typeChanges oldSchema (types newSchema) = Inr typeCommands
      \<and> commands = typeCommands @ others"
  unfolding generateSchemaAltersInternal_def
  by (auto simp: Let_def split: sum.splits)

text \<open>
  Claim C3, as the code has it. Let a type be an enum in both schemas (an own key of
  both), and let no entry before it in the new schema end the loop of the type changes
  (\<open>typeHalts\<close>: the name of the entry reads as something truthy in the old schema,
  own or inherited, that raises the \<^verbatim>\<open>TypeError\<close> or takes the \<^verbatim>\<open>break\<close>). Then the commands of a
  diff that returns are those of the earlier types, then one error comment
  \<open>Cannot modify existing enum value in <type>\<close> for every index of the \<^emph>\<open>old\<close> value
  list at which the new list has a different value or no value at all, then one
  \<open>ADD VALUE\<close> command, in order, for every new value at an index at or beyond the old
  length, then the commands of the later types (the loop goes on) and of the later
  passes. In particular, old \<open>('a','b')\<close> against new \<open>('a','b','c')\<close> gives exactly one
  \<open>ADD VALUE 'c'\<close> command and no error comment.
\<close>

theorem enum_changes_emitted:
  assumes ok: "generateSchemaAltersInternal oldSchema newSchema = Inr commands"
    and old: "map_of (types oldSchema) typeName = Some (Enum oldValues)"
    and new: "types newSchema = front @ (typeName, Enum newValues) # rest"
    and reach: "\<forall>e \<in> set front. \<not> typeHalts oldSchema e"
  shows "(\<exists>earlier later others.
           typeChanges oldSchema front = Inr earlier
           \<and> typeChanges oldSchema rest = Inr later
           \<and> commands =
               earlier
               @ replicate
                   (card {i. i < length oldValues
                             \<and> (length newValues \<le> i \<or> oldValues ! i \<noteq> newValues ! i)})
                   (''-- ERROR: Cannot modify existing enum value in '' @ typeName @ [LF])
               @ map (\<lambda>v. ''ALTER TYPE '' @ typeName @ '' ADD VALUE '' @ apos # v @ apos # '';'')
                     (drop (length oldValues) newValues)
               @ later @ others)
         \<and> generateSchemaAltersInternal
             \<lparr>types = [(''mood'', Enum [''a'', ''b''])], tables = [], typesProto = None, tablesProto = None\<rparr>
             \<lparr>types = [(''mood'', Enum [''a'', ''b'', ''c''])], tables = [], typesProto = None, tablesProto = None\<rparr>
           = Inr [''ALTER TYPE mood ADD VALUE '' @ apos # ''c'' @ apos # '';'']"
proof -
  from gsai_Inr_types[OF ok] obtain typeCommands others where
    tc: "typeChanges oldSchema (types newSchema) = Inr typeCommands"
    and cmds: "commands = typeCommands @ others" by blast
  from typeChanges_append[OF reach, of "(typeName, Enum newValues) # rest"]
  obtain earlier where e: "typeChanges oldSchema front = Inr earlier"
    and app: "typeChanges oldSchema (front @ (typeName, Enum newValues) # rest) =
       (case typeChanges oldSchema ((typeName, Enum newValues) # rest) of
          Inl e \<Rightarrow> Inl e | Inr c' \<Rightarrow> Inr (earlier @ c'))" by blast
  have own: "typesGet oldSchema typeName = TypeDefObject (Enum oldValues)"
    using old by (simp add: typesGet_def)
  from tc app new own obtain later where
    l: "typeChanges oldSchema rest = Inr later"
    and tcs: "typeCommands = earlier @ enumChanges typeName (map Some oldValues) newValues @ later"
    by (auto split: sum.splits)
  have "{i. i < length (map Some oldValues)
            \<and> enumValueDiffers (map Some oldValues) newValues i}
        = {i. i < length oldValues
              \<and> (length newValues \<le> i \<or> oldValues ! i \<noteq> newValues ! i)}"
    by (auto simp: enumValueDiffers_def)
  then have "enumChanges typeName (map Some oldValues) newValues =
      replicate (card {i. i < length oldValues
                             \<and> (length newValues \<le> i \<or> oldValues ! i \<noteq> newValues ! i)})
                   (''-- ERROR: Cannot modify existing enum value in '' @ typeName @ [LF])
               @ map (\<lambda>v. ''ALTER TYPE '' @ typeName @ '' ADD VALUE '' @ apos # v @ apos # '';'')
                     (drop (length oldValues) newValues)"
    unfolding enumChanges_def enumErrors_replicate by simp
  with e l tcs cmds have general: "\<exists>earlier later others.
           typeChanges oldSchema front = Inr earlier
           \<and> typeChanges oldSchema rest = Inr later
           \<and> commands =
               earlier
               @ replicate
                   (card {i. i < length oldValues
                             \<and> (length newValues \<le> i \<or> oldValues ! i \<noteq> newValues ! i)})
                   (''-- ERROR: Cannot modify existing enum value in '' @ typeName @ [LF])
               @ map (\<lambda>v. ''ALTER TYPE '' @ typeName @ '' ADD VALUE '' @ apos # v @ apos # '';'')
                     (drop (length oldValues) newValues)
               @ later @ others" by simp
  have example: "generateSchemaAltersInternal
             \<lparr>types = [(''mood'', Enum [''a'', ''b''])], tables = [], typesProto = None, tablesProto = None\<rparr>
             \<lparr>types = [(''mood'', Enum [''a'', ''b'', ''c''])], tables = [], typesProto = None, tablesProto = None\<rparr>
           = Inr [''ALTER TYPE mood ADD VALUE '' @ apos # ''c'' @ apos # '';'']"
    by code_simp
  from general example show ?thesis by (rule conjI)
qed

text \<open>
  Two instances, after an untouched composite type: the first value is changed and a
  third value is appended; and, with a new composite type of the inherited name
  \<open>hasOwnProperty\<close> before the enum, the loop ends there and the enum is not reached.
\<close>

theorem enum_changes_emitted_witness:
  "generateSchemaAltersInternal
     \<lparr>types = [(''point'', Composite ''(x int, y int)''), (''mood'', Enum [''a'', ''b''])],
      tables = [], typesProto = None, tablesProto = None\<rparr>
     \<lparr>types = [(''point'', Composite ''(x int, y int)''),
               (''hasOwnProperty'', Composite ''(z int)''),
               (''mood'', Enum [''x'', ''b'', ''c''])],
      tables = [], typesProto = None, tablesProto = None\<rparr>
   = Inr [''-- ERROR: Composite type hasOwnProperty definition changed'']
   \<and> generateSchemaAltersInternal
     \<lparr>types = [(''point'', Composite ''(x int, y int)''), (''mood'', Enum [''a'', ''b''])],
      tables = [], typesProto = None, tablesProto = None\<rparr>
     \<lparr>types = [(''point'', Composite ''(x int, y int)''), (''mood'', Enum [''x'', ''b'', ''c''])],
      tables = [], typesProto = None, tablesProto = None\<rparr>
   = Inr [''-- ERROR: Cannot modify existing enum value in mood'' @ [LF],
          ''ALTER TYPE mood ADD VALUE '' @ apos # ''c'' @ apos # '';'']"
proof -
  let ?old = "\<lparr>types = [(''point'', Composite ''(x int, y int)''), (''mood'', Enum [''a'', ''b''])],
      tables = [], typesProto = None, tablesProto = None\<rparr>"
  let ?new = "\<lparr>types = [(''point'', Composite ''(x int, y int)''),
                         (''mood'', Enum [''x'', ''b'', ''c''])],
      tables = [], typesProto = None, tablesProto = None\<rparr>"
  have halted: "generateSchemaAltersInternal ?old
     \<lparr>types = [(''point'', Composite ''(x int, y int)''),
               (''hasOwnProperty'', Composite ''(z int)''),
               (''mood'', Enum [''x'', ''b'', ''c''])],
      tables = [], typesProto = None, tablesProto = None\<rparr>
   = Inr [''-- ERROR: Composite type hasOwnProperty definition changed'']"
    by code_simp
  have ev: "generateSchemaAltersInternal ?old ?new
   = Inr [''-- ERROR: Cannot modify existing enum value in mood'' @ [LF],
          ''ALTER TYPE mood ADD VALUE '' @ apos # ''c'' @ apos # '';'']"
    by code_simp
  have old: "map_of (types ?old) ''mood'' = Some (Enum [''a'', ''b''])" by simp
  have new: "types ?new = [(''point'', Composite ''(x int, y int)'')]
                @ (''mood'', Enum [''x'', ''b'', ''c'']) # []" by simp
  have reach: "\<forall>e \<in> set [(''point'', Composite ''(x int, y int)'')]. \<not> typeHalts ?old e"
    by (simp add: typeHalts_def typesGet_def)
  from enum_changes_emitted[OF ev old new reach] halted ev show ?thesis by blast
qed

text \<open>
  The claim as the specification words it fails when the new list is the shorter one: for
  old \<open>('a','b')\<close> and new \<open>('a')\<close> a comparison up to the shorter length finds nothing,
  while the code compares every old index and emits an error comment for index 1.
  It also fails for an enum that the loop never reaches: after a composite type whose
  definition changed, the value appended to \<open>mood\<close> is not added.
\<close>

theorem enum_shorter_counterexample:
  "generateSchemaAltersInternal
     \<lparr>types = [(''mood'', Enum [''a'', ''b''])], tables = [], typesProto = None,
      tablesProto = None\<rparr>
     \<lparr>types = [(''mood'', Enum [''a''])], tables = [], typesProto = None, tablesProto = None\<rparr>
   = Inr [''-- ERROR: Cannot modify existing enum value in mood'' @ [LF]]
   \<and> spec_enumChanges ''mood'' [''a'', ''b''] [''a''] = []
   \<and> generateSchemaAltersInternal
       \<lparr>types = [(''point'', Composite ''(x int)''), (''mood'', Enum [''a'', ''b''])],
        tables = [], typesProto = None, tablesProto = None\<rparr>
       \<lparr>types = [(''point'', Composite ''(x int, y int)''),
                 (''mood'', Enum [''a'', ''b'', ''c''])],
        tables = [], typesProto = None, tablesProto = None\<rparr>
     = Inr [''-- ERROR: Composite type point definition changed'']"
  by code_simp

section \<open>Best match: properties\<close>

lemma findBestMatch_cases:
  "(findBestMatch thr oc m nt (b, bs) = (b, bs)
      \<and> (\<forall>(n', c') \<in> set nt. n' \<notin> m \<longrightarrow> \<not> (columnSimilarity oc c' > bs \<and> columnSimilarity oc c' \<ge> thr)))
   \<or> (\<exists>front n cols rest. nt = front @ (n, cols) # rest
        \<and> findBestMatch thr oc m nt (b, bs) = (Some n, columnSimilarity oc cols)
        \<and> n \<notin> m \<and> columnSimilarity oc cols > bs \<and> columnSimilarity oc cols \<ge> thr
        \<and> (\<forall>(n', c') \<in> set front. n' \<notin> m \<longrightarrow> columnSimilarity oc c' < columnSimilarity oc cols)
        \<and> (\<forall>(n', c') \<in> set rest. n' \<notin> m \<longrightarrow> columnSimilarity oc c' \<le> columnSimilarity oc cols))"
proof (induction nt arbitrary: b bs)
  case Nil
  then show ?case by simp
next
  case (Cons e nt)
  obtain n0 c0 where e: "e = (n0, c0)" by (cases e)
  let ?s0 = "columnSimilarity oc c0"
  show ?case
  proof (cases "n0 \<in> m")
    case True
    from Cons.IH[of b bs] show ?thesis
    proof (elim disjE exE conjE)
      assume "findBestMatch thr oc m nt (b, bs) = (b, bs)"
        "\<forall>(n', c') \<in> set nt. n' \<notin> m \<longrightarrow> \<not> (columnSimilarity oc c' > bs \<and> columnSimilarity oc c' \<ge> thr)"
      then show ?thesis using True e by auto
    next
      fix front n cols rest
      assume h: "nt = front @ (n, cols) # rest"
        "findBestMatch thr oc m nt (b, bs) = (Some n, columnSimilarity oc cols)"
        "n \<notin> m" "columnSimilarity oc cols > bs" "columnSimilarity oc cols \<ge> thr"
        "\<forall>(n', c') \<in> set front. n' \<notin> m \<longrightarrow> columnSimilarity oc c' < columnSimilarity oc cols"
        "\<forall>(n', c') \<in> set rest. n' \<notin> m \<longrightarrow> columnSimilarity oc c' \<le> columnSimilarity oc cols"
      have "e # nt = (e # front) @ (n, cols) # rest" using h(1) by simp
      moreover have "\<forall>(n', c') \<in> set (e # front). n' \<notin> m \<longrightarrow> columnSimilarity oc c' < columnSimilarity oc cols"
        using h(6) True e by auto
      moreover have "findBestMatch thr oc m (e # nt) (b, bs) = (Some n, columnSimilarity oc cols)"
        using h(2) True e by simp
      ultimately show ?thesis using h(3,4,5,7) by blast
    qed
  next
    case False
    show ?thesis
    proof (cases "?s0 > bs \<and> ?s0 \<ge> thr")
      case better: True
      then have step: "findBestMatch thr oc m (e # nt) (b, bs) = findBestMatch thr oc m nt (Some n0, ?s0)"
        using False e by (simp add: Let_def)
      from Cons.IH[of "Some n0" ?s0] show ?thesis
      proof (elim disjE exE conjE)
        assume h: "findBestMatch thr oc m nt (Some n0, ?s0) = (Some n0, ?s0)"
          "\<forall>(n', c') \<in> set nt. n' \<notin> m \<longrightarrow> \<not> (columnSimilarity oc c' > ?s0 \<and> columnSimilarity oc c' \<ge> thr)"
        have "e # nt = [] @ (n0, c0) # nt" using e by simp
        moreover have "\<forall>(n', c') \<in> set nt. n' \<notin> m \<longrightarrow> columnSimilarity oc c' \<le> ?s0"
          using h(2) better by fastforce
        moreover have "findBestMatch thr oc m (e # nt) (b, bs) = (Some n0, ?s0)"
          using step h(1) by simp
        moreover have "\<forall>(n', c') \<in> set []. n' \<notin> m \<longrightarrow> columnSimilarity oc c' < ?s0" by simp
        ultimately show ?thesis using False better by blast
      next
        fix front n cols rest
        assume h: "nt = front @ (n, cols) # rest"
          "findBestMatch thr oc m nt (Some n0, ?s0) = (Some n, columnSimilarity oc cols)"
          "n \<notin> m" "columnSimilarity oc cols > ?s0" "columnSimilarity oc cols \<ge> thr"
          "\<forall>(n', c') \<in> set front. n' \<notin> m \<longrightarrow> columnSimilarity oc c' < columnSimilarity oc cols"
          "\<forall>(n', c') \<in> set rest. n' \<notin> m \<longrightarrow> columnSimilarity oc c' \<le> columnSimilarity oc cols"
        have "e # nt = (e # front) @ (n, cols) # rest" using h(1) by simp
        moreover have "\<forall>(n', c') \<in> set (e # front). n' \<notin> m \<longrightarrow> columnSimilarity oc c' < columnSimilarity oc cols"
          using h(6) h(4) e by auto
        moreover have "findBestMatch thr oc m (e # nt) (b, bs) = (Some n, columnSimilarity oc cols)"
          using h(2) step by simp
        moreover have "columnSimilarity oc cols > bs" using h(4) better by simp
        ultimately show ?thesis using h(3,5,7) by blast
      qed
    next
      case worse: False
      then have step: "findBestMatch thr oc m (e # nt) (b, bs) = findBestMatch thr oc m nt (b, bs)"
        using False e by (auto simp add: Let_def)
      from Cons.IH[of b bs] show ?thesis
      proof (elim disjE exE conjE)
        assume "findBestMatch thr oc m nt (b, bs) = (b, bs)"
          "\<forall>(n', c') \<in> set nt. n' \<notin> m \<longrightarrow> \<not> (columnSimilarity oc c' > bs \<and> columnSimilarity oc c' \<ge> thr)"
        then show ?thesis using worse e step by auto
      next
        fix front n cols rest
        assume h: "nt = front @ (n, cols) # rest"
          "findBestMatch thr oc m nt (b, bs) = (Some n, columnSimilarity oc cols)"
          "n \<notin> m" "columnSimilarity oc cols > bs" "columnSimilarity oc cols \<ge> thr"
          "\<forall>(n', c') \<in> set front. n' \<notin> m \<longrightarrow> columnSimilarity oc c' < columnSimilarity oc cols"
          "\<forall>(n', c') \<in> set rest. n' \<notin> m \<longrightarrow> columnSimilarity oc c' \<le> columnSimilarity oc cols"
        have "e # nt = (e # front) @ (n, cols) # rest" using h(1) by simp
        moreover have "?s0 < columnSimilarity oc cols" using worse h(4,5) by auto
        then have "\<forall>(n', c') \<in> set (e # front). n' \<notin> m \<longrightarrow> columnSimilarity oc c' < columnSimilarity oc cols"
          using h(6) e by auto
        moreover have "findBestMatch thr oc m (e # nt) (b, bs) = (Some n, columnSimilarity oc cols)"
          using h(2) step by simp
        ultimately show ?thesis using h(3,4,5,7) by blast
      qed
    qed
  qed
qed

lemma setOwnKey_new_name:
  "map_of obj k = None \<Longrightarrow> \<not> isArrayIndex k \<Longrightarrow> setOwnKey obj k v = obj @ [(k, v)]"
  by (simp add: setOwnKey_def)

text \<open>
  Claim C10, as the code has it. Let some new table that is not matched yet reach the
  threshold (0.5 in the rename detection, 0.3 in the replacement matching) for an old
  table. Then the loop selects a new table \<open>best\<close> that is not matched and whose score
  is the greatest among the unmatched new tables, and it is the earliest such table in
  the order in which \<^verbatim>\<open>Object.entries\<close> (line 112) and \<^verbatim>\<open>Object.keys\<close> (line 263)
  enumerate the tables of the new schema, which is the order of the list
  \<open>tables newSchema\<close>: every unmatched table before it scores strictly less, every one
  after it at most as much. That order is the order of declaration for names that are
  not array indexes (\<open>setOwnKey_new_name\<close>); a name that is an array index comes before
  every other name. The rename detection then renames the old table to \<open>best\<close>, when
  the old name does not read as a table of the new schema, and the replacement matching
  records the pair (the source tests \<^verbatim>\<open>if (bestMatch)\<close>, which the empty name fails).
\<close>

theorem findBestMatch_earliest_maximum:
  assumes thr: "threshold = 1 / 2 \<or> threshold = 3 / 10"
    and cand: "(candidate, candidateColumns) \<in> set (tables newSchema)" "candidate \<notin> matched"
      "columnSimilarity oldColumns candidateColumns \<ge> threshold"
  shows "\<exists>front best bestColumns rest.
           tables newSchema = front @ (best, bestColumns) # rest
           \<and> findBestMatch threshold oldColumns matched (tables newSchema) (None, 0)
               = (Some best, columnSimilarity oldColumns bestColumns)
           \<and> best \<notin> matched
           \<and> columnSimilarity oldColumns bestColumns \<ge> threshold
           \<and> (\<forall>(n, cols) \<in> set front. n \<notin> matched \<longrightarrow>
                 columnSimilarity oldColumns cols < columnSimilarity oldColumns bestColumns)
           \<and> (\<forall>(n, cols) \<in> set rest. n \<notin> matched \<longrightarrow>
                 columnSimilarity oldColumns cols \<le> columnSimilarity oldColumns bestColumns)
           \<and> (threshold = 1 / 2 \<and> \<not> tableKnown newSchema oldTableName
                \<and> newTableMatched st = matched \<and> best \<noteq> [] \<longrightarrow>
                detectRenames newSchema ((oldTableName, oldColumns) # others) st =
                detectRenames newSchema others
                  (st\<lparr>oldTableMatched := insert oldTableName (oldTableMatched st),
                      newTableMatched := insert best (newTableMatched st),
                      renameMap := renameMap st @ [(oldTableName, best)],
                      renameCommands := renameCommands st @
                        [''ALTER TABLE '' @ oldTableName @ '' RENAME TO '' @ best @ '';'']\<rparr>))
           \<and> (threshold = 3 / 10 \<and> oldTableName \<notin> oldMatched \<and> best \<noteq> [] \<longrightarrow>
                detectReplacements oldMatched matched (tables newSchema)
                  ((oldTableName, oldColumns) # others) =
                (oldTableName, best)
                # detectReplacements oldMatched matched (tables newSchema) others)"
proof -
  have pos: "0 < threshold" using thr by auto
  have "\<not> (\<forall>(n', c') \<in> set (tables newSchema). n' \<notin> matched \<longrightarrow>
            \<not> (columnSimilarity oldColumns c' > 0 \<and> columnSimilarity oldColumns c' \<ge> threshold))"
    using cand pos by force
  with findBestMatch_cases[of threshold oldColumns matched "tables newSchema" None 0]
  obtain front best bestColumns rest where
    sel: "tables newSchema = front @ (best, bestColumns) # rest"
      "findBestMatch threshold oldColumns matched (tables newSchema) (None, 0)
               = (Some best, columnSimilarity oldColumns bestColumns)"
      "best \<notin> matched"
      "columnSimilarity oldColumns bestColumns \<ge> threshold"
      "\<forall>(n, cols) \<in> set front. n \<notin> matched \<longrightarrow>
                 columnSimilarity oldColumns cols < columnSimilarity oldColumns bestColumns"
      "\<forall>(n, cols) \<in> set rest. n \<notin> matched \<longrightarrow>
                 columnSimilarity oldColumns cols \<le> columnSimilarity oldColumns bestColumns"
    by blast
  have ren: "threshold = 1 / 2 \<and> \<not> tableKnown newSchema oldTableName
                \<and> newTableMatched st = matched \<and> best \<noteq> [] \<longrightarrow>
                detectRenames newSchema ((oldTableName, oldColumns) # others) st =
                detectRenames newSchema others
                  (st\<lparr>oldTableMatched := insert oldTableName (oldTableMatched st),
                      newTableMatched := insert best (newTableMatched st),
                      renameMap := renameMap st @ [(oldTableName, best)],
                      renameCommands := renameCommands st @
                        [''ALTER TABLE '' @ oldTableName @ '' RENAME TO '' @ best @ '';'']\<rparr>)"
  proof (intro impI, elim conjE)
    assume h: "threshold = 1 / 2" "\<not> tableKnown newSchema oldTableName"
      "newTableMatched st = matched" "best \<noteq> []"
    have "fst (findBestMatch (1 / 2) oldColumns (newTableMatched st) (tables newSchema) (None, 0))
          = Some best"
      using sel(2) unfolding h(1) h(3) by simp
    then show "detectRenames newSchema ((oldTableName, oldColumns) # others) st =
                detectRenames newSchema others
                  (st\<lparr>oldTableMatched := insert oldTableName (oldTableMatched st),
                      newTableMatched := insert best (newTableMatched st),
                      renameMap := renameMap st @ [(oldTableName, best)],
                      renameCommands := renameCommands st @
                        [''ALTER TABLE '' @ oldTableName @ '' RENAME TO '' @ best @ '';'']\<rparr>)"
      using h(2) h(4) by simp
  qed
  have rep: "threshold = 3 / 10 \<and> oldTableName \<notin> oldMatched \<and> best \<noteq> [] \<longrightarrow>
                detectReplacements oldMatched matched (tables newSchema)
                  ((oldTableName, oldColumns) # others) =
                (oldTableName, best)
                # detectReplacements oldMatched matched (tables newSchema) others"
  proof (intro impI, elim conjE)
    assume h: "threshold = 3 / 10" "oldTableName \<notin> oldMatched" "best \<noteq> []"
    have "fst (findBestMatch (3 / 10) oldColumns matched (tables newSchema) (None, 0)) = Some best"
      using sel(2) unfolding h(1) by simp
    then show "detectReplacements oldMatched matched (tables newSchema)
                  ((oldTableName, oldColumns) # others) =
                (oldTableName, best)
                # detectReplacements oldMatched matched (tables newSchema) others"
      using h(2) h(3) by simp
  qed
  from sel ren rep show ?thesis by blast
qed

text \<open>
  An instance with a tie: the tables \<open>y\<close> and \<open>z\<close> both score \<open>3 / 4\<close>, and \<open>y\<close>, the
  earlier one, is selected and becomes the new name of the old table \<open>w\<close>.
\<close>

theorem findBestMatch_earliest_maximum_witness:
  "findBestMatch (1 / 2) (map plainColumn [''a'', ''b'', ''c'']) {}
        [(''x'', map plainColumn [''q'']),
         (''y'', map plainColumn [''a'', ''b'', ''c'', ''d'']),
         (''z'', map plainColumn [''a'', ''b'', ''c'', ''e''])] (None, 0)
      = (Some ''y'', 3 / 4)
   \<and> columnSimilarity (map plainColumn [''a'', ''b'', ''c''])
        (map plainColumn [''a'', ''b'', ''c'', ''e'']) = 3 / 4
   \<and> renameMap
        (detectRenames
           \<lparr>types = [],
            tables = [(''x'', map plainColumn [''q'']),
                      (''y'', map plainColumn [''a'', ''b'', ''c'', ''d'']),
                      (''z'', map plainColumn [''a'', ''b'', ''c'', ''e''])],
            typesProto = None, tablesProto = None\<rparr>
           [(''w'', map plainColumn [''a'', ''b'', ''c''])] initialMatching)
      = [(''w'', ''y'')]"
proof -
  define new where "new = \<lparr>types = [],
            tables = [(''x'', map plainColumn [''q'']),
                      (''y'', map plainColumn [''a'', ''b'', ''c'', ''d'']),
                      (''z'', map plainColumn [''a'', ''b'', ''c'', ''e''])],
            typesProto = None, tablesProto = None\<rparr>"
  define old where "old = map plainColumn [''a'', ''b'', ''c'']"
  define zcols where "zcols = map plainColumn [''a'', ''b'', ''c'', ''e'']"
  have thr: "(1 / 2 :: rat) = 1 / 2 \<or> (1 / 2 :: rat) = 3 / 10" by simp
  have c1: "(''z'', zcols) \<in> set (tables new)" by (simp add: new_def zcols_def)
  have c2: "''z'' \<notin> ({} :: string set)" by simp
  have sim: "columnSimilarity old zcols = 3 / 4"
    by (simp add: old_def zcols_def columnSimilarity_def plainColumn_def Let_def)
  have c3: "columnSimilarity old zcols \<ge> 1 / 2"
    unfolding sim by simp
  have ev: "findBestMatch (1 / 2) old {} (tables new) (None, 0) = (Some ''y'', 3 / 4)"
    by (simp add: old_def new_def columnSimilarity_def plainColumn_def Let_def)
  have unknown: "\<not> tableKnown new ''w''"
    by (simp add: new_def tableKnown_def objectPrototypeMethods_def)
  have m: "newTableMatched initialMatching = {}" by (simp add: initialMatching_def)
  from findBestMatch_earliest_maximum[where oldTableName = "''w''" and st = initialMatching
      and others = "[]" and oldMatched = "{}", OF thr c1 c2 c3]
  obtain best bestColumns where
    sel: "findBestMatch (1 / 2) old {} (tables new) (None, 0)
               = (Some best, columnSimilarity old bestColumns)"
    and step: "1 / 2 = (1 / 2 :: rat) \<and> \<not> tableKnown new ''w''
                \<and> newTableMatched initialMatching = {} \<and> best \<noteq> [] \<longrightarrow>
                detectRenames new ((''w'', old) # []) initialMatching =
                detectRenames new []
                  (initialMatching\<lparr>oldTableMatched := insert ''w'' (oldTableMatched initialMatching),
                      newTableMatched := insert best (newTableMatched initialMatching),
                      renameMap := renameMap initialMatching @ [(''w'', best)],
                      renameCommands := renameCommands initialMatching @
                        [''ALTER TABLE '' @ ''w'' @ '' RENAME TO '' @ best @ '';'']\<rparr>)"
    by blast
  from sel have best: "best = ''y''" unfolding ev by simp
  have "detectRenames new [(''w'', old)] initialMatching =
                detectRenames new []
                  (initialMatching\<lparr>oldTableMatched := insert ''w'' (oldTableMatched initialMatching),
                      newTableMatched := insert ''y'' (newTableMatched initialMatching),
                      renameMap := renameMap initialMatching @ [(''w'', ''y'')],
                      renameCommands := renameCommands initialMatching @
                        [''ALTER TABLE '' @ ''w'' @ '' RENAME TO '' @ ''y'' @ '';'']\<rparr>)"
    using step unknown m unfolding best by simp
  then have "renameMap (detectRenames new [(''w'', old)] initialMatching) = [(''w'', ''y'')]"
    by (simp add: initialMatching_def)
  moreover have "tables new = [(''x'', map plainColumn [''q'']),
                      (''y'', map plainColumn [''a'', ''b'', ''c'', ''d'']),
                      (''z'', map plainColumn [''a'', ''b'', ''c'', ''e''])]"
    by (simp add: new_def)
  ultimately show ?thesis using ev sim unfolding new_def old_def zcols_def by (simp only:)
qed

text \<open>
  The claim as worded, with the order of declaration, fails for a table whose name is an
  array index: in the new text the table \<open>b\<close> is declared before the table \<open>1\<close>, both
  score 1 against the old table \<open>o\<close>, and \<^verbatim>\<open>Object.entries\<close> enumerates \<open>1\<close> first, so
  the table declared later is selected.
\<close>

theorem later_declared_table_selected_counterexample:
  "parseSchema ''CREATE TABLE b (x INT, y INT, z INT); CREATE TABLE 1 (x INT, y INT, z INT);''
   = Inr \<lparr>types = [],
          tables = [(''1'', map plainColumn [''x'', ''y'', ''z'']),
                    (''b'', map plainColumn [''x'', ''y'', ''z''])],
          typesProto = None, tablesProto = None\<rparr>
   \<and> columnSimilarity (map plainColumn [''x'', ''y'', ''z'']) (map plainColumn [''x'', ''y'', ''z''])
     = 1
   \<and> generateSchemaAlters ''CREATE TABLE o (x INT, y INT, z INT);''
       ''CREATE TABLE b (x INT, y INT, z INT); CREATE TABLE 1 (x INT, y INT, z INT);''
     = Inr [''ALTER TABLE o RENAME TO 1;'',
            ''CREATE TABLE b ('' @ [LF] @ ''  x INT,'' @ [LF] @ ''  y INT,'' @ [LF] @ ''  z INT''
              @ [LF] @ '');'']"
  by code_simp

section \<open>Diffing a schema against itself\<close>

lemma typesGet_own: "map_of (types S) n = Some t \<Longrightarrow> typesGet S n = TypeDefObject t"
  by (simp add: typesGet_def)

lemma tableKnown_own: "map_of (tables S) n \<noteq> None \<Longrightarrow> tableKnown S n"
  by (simp add: tableKnown_def)

lemma enumChanges_same: "enumChanges typeName (map Some vs) vs = []"
  by (simp add: enumChanges_def enumValueDiffers_def)

lemma typeChanges_same:
  "\<forall>(n, t) \<in> set rest. map_of (types S) n = Some t \<Longrightarrow> typeChanges S rest = Inr []"
proof (induction rest)
  case Nil
  then show ?case by simp
next
  case (Cons e rest)
  obtain n t where e: "e = (n, t)" by (cases e)
  with Cons show ?case
    by (cases t) (auto simp: enumChanges_same typesGet_own)
qed

lemma detectRenames_identity:
  "\<forall>(n, c) \<in> set olds. tableKnown news n \<Longrightarrow>
   detectRenames news olds st =
     st\<lparr>oldTableMatched := fst ` set olds \<union> oldTableMatched st,
        newTableMatched := fst ` set olds \<union> newTableMatched st\<rparr>"
proof (induction olds arbitrary: st)
  case Nil
  then show ?case by simp
next
  case (Cons e olds)
  obtain n c where e: "e = (n, c)" by (cases e)
  with Cons show ?case by (auto simp: insert_commute)
qed

lemma columnMapGet_distinct:
  "distinct (map name cols) \<Longrightarrow> c \<in> set cols \<Longrightarrow> columnMapGet cols (name c) = Some c"
proof -
  assume d: "distinct (map name cols)" and c: "c \<in> set cols"
  have "distinct (map fst (rev (map (\<lambda>c. (name c, c)) cols)))"
    using d by (simp add: rev_map[symmetric] comp_def)
  moreover have "(name c, c) \<in> set (rev (map (\<lambda>c. (name c, c)) cols))" using c by auto
  ultimately show ?thesis unfolding columnMapGet_def by (rule map_of_is_SomeI)
qed

lemma addColumns_same:
  "distinct (map name cols) \<Longrightarrow> set rest \<subseteq> set cols \<Longrightarrow> addColumns tableName cols rest = Inr []"
  by (induction rest) (auto simp: columnMapGet_distinct)

lemma modifyColumn_same:
  "distinct (map name cols) \<Longrightarrow> c \<in> set cols \<Longrightarrow> modifyColumn tableName cols c = []"
  by (simp add: modifyColumn_def columnMapGet_distinct)

lemma removeColumns_same: "removeColumns tableName cols cols = []"
  by (auto simp: removeColumns_def filter_empty_conv)

lemma changeTable_same:
  "distinct (map name cols) \<Longrightarrow> changeTable tableName cols cols = Inr []"
  by (simp add: changeTable_def addColumns_same modifyColumn_same removeColumns_same)

lemma changeTables_same:
  "\<forall>(n, cols) \<in> set rest. map_of oldTables n = Some cols \<and> distinct (map name cols) \<Longrightarrow>
   renameMap st = [] \<Longrightarrow>
   changeTables oldTables st rest = Inr []"
proof (induction rest)
  case Nil
  then show ?case by simp
next
  case (Cons e rest)
  obtain n cols where e: "e = (n, cols)" by (cases e)
  with Cons show ?case
    by (auto simp: resolveOldColumns_def tableColumns_def changeTable_same)
qed

lemma createType_same:
  "\<forall>(n, t) \<in> set ts. map_of (types S) n \<noteq> None \<Longrightarrow> concat (map (createType S) ts) = []"
proof (induction ts)
  case Nil
  then show ?case by simp
next
  case (Cons e ts)
  obtain n t where e: "e = (n, t)" by (cases e)
  with Cons show ?case by (cases t) (auto simp: typesGet_own)
qed

lemma createTable_matched:
  "fst ` set ts \<subseteq> newMatched \<Longrightarrow> concat (map (createTable oldTables newMatched repl) ts) = []"
  by (induction ts) (auto simp: createTable_def)

lemma dropTables_matched:
  "fst ` set oldTables \<subseteq> oldMatched \<Longrightarrow> dropTables oldMatched oldTables = []"
  by (auto simp: dropTables_def filter_empty_conv)

lemma map_of_distinct_self: "distinct (map fst xs) \<Longrightarrow> \<forall>(k, v) \<in> set xs. map_of xs k = Some v"
  by auto

text \<open>
  Claim C5, as the code has it. For every schema in which no table has two columns of
  the same name, diffing the schema against itself returns the empty command list.
  (\<open>wf_schema\<close> says that the keys of the two objects are unique, as the keys of a
  JavaScript object are.)
\<close>

theorem self_diff_empty:
  assumes wf: "wf_schema S"
    and cols: "\<forall>(tableName, columns) \<in> set (tables S). distinct (map name columns)"
  shows "generateSchemaAltersInternal S S = Inr []"
proof -
  have ty: "\<forall>(n, t) \<in> set (types S). map_of (types S) n = Some t"
    using wf by (auto simp: wf_schema_def)
  have tb: "\<forall>(n, c) \<in> set (tables S). map_of (tables S) n = Some c"
    using wf by (auto simp: wf_schema_def)
  have tc: "typeChanges S (types S) = Inr []"
    using ty by (rule typeChanges_same)
  have tb': "\<forall>(n, c) \<in> set (tables S). tableKnown S n"
    using tb by (auto simp: tableKnown_own)
  have st: "matchTables S S =
      \<lparr>oldTableMatched = fst ` set (tables S), newTableMatched = fst ` set (tables S),
       renameMap = [], renameCommands = []\<rparr>"
    unfolding matchTables_def detectRenames_identity[OF tb'] by (simp add: initialMatching_def)
  have ct: "changeTables (tables S) (matchTables S S) (tables S) = Inr []"
    by (rule changeTables_same) (use tb cols st in auto)
  have cty: "concat (map (createType S) (types S)) = []"
    by (rule createType_same) (use ty in auto)
  have ctb: "concat (map (createTable (tables S) (newTableMatched (matchTables S S))
                 (tableReplacements S S)) (tables S)) = []"
    by (rule createTable_matched) (simp add: st)
  have dt: "dropTables (oldTableMatched (matchTables S S)) (tables S) = []"
    by (rule dropTables_matched) (simp add: st)
  have rc: "renameCommands (matchTables S S) = []" by (simp add: st)
  show ?thesis
    unfolding generateSchemaAltersInternal_def Let_def tc
    by (simp add: ct cty ctb dt rc)
qed

theorem self_diff_empty_witness:
  "wf_schema
     \<lparr>types = [(''mood'', Enum [''sad'', ''ok''])],
      tables = [(''person'', [\<lparr>name = ''id'', type = ''SERIAL PRIMARY KEY'', notNull = False,
                                defaultValue = None\<rparr>,
                              \<lparr>name = ''current_mood'', type = ''mood'', notNull = True,
                                defaultValue = Some ''ok''\<rparr>])], typesProto = None, tablesProto = None\<rparr>
   \<and> generateSchemaAltersInternal
       \<lparr>types = [(''mood'', Enum [''sad'', ''ok''])],
        tables = [(''person'', [\<lparr>name = ''id'', type = ''SERIAL PRIMARY KEY'', notNull = False,
                                  defaultValue = None\<rparr>,
                                \<lparr>name = ''current_mood'', type = ''mood'', notNull = True,
                                  defaultValue = Some ''ok''\<rparr>])], typesProto = None, tablesProto = None\<rparr>
       \<lparr>types = [(''mood'', Enum [''sad'', ''ok''])],
        tables = [(''person'', [\<lparr>name = ''id'', type = ''SERIAL PRIMARY KEY'', notNull = False,
                                  defaultValue = None\<rparr>,
                                \<lparr>name = ''current_mood'', type = ''mood'', notNull = True,
                                  defaultValue = Some ''ok''\<rparr>])], typesProto = None, tablesProto = None\<rparr>
     = Inr []"
  using self_diff_empty
    [of "\<lparr>types = [(''mood'', Enum [''sad'', ''ok''])],
          tables = [(''person'', [\<lparr>name = ''id'', type = ''SERIAL PRIMARY KEY'', notNull = False,
                                    defaultValue = None\<rparr>,
                                  \<lparr>name = ''current_mood'', type = ''mood'', notNull = True,
                                    defaultValue = Some ''ok''\<rparr>])], typesProto = None, tablesProto = None\<rparr>"]
  by (simp add: wf_schema_def)

text \<open>
  The claim for every schema fails on a table that declares a column name twice (the
  parser accepts \<^verbatim>\<open>CREATE TABLE t (a INT, a TEXT)\<close>): the map of the old columns keeps
  the later column, so the first column is compared with the second one.
\<close>

theorem self_diff_duplicate_column_counterexample:
  "wf_schema
     \<lparr>types = [],
      tables = [(''t'', [\<lparr>name = ''a'', type = ''INT'', notNull = False, defaultValue = None\<rparr>,
                         \<lparr>name = ''a'', type = ''TEXT'', notNull = False, defaultValue = None\<rparr>])], typesProto = None, tablesProto = None\<rparr>
   \<and> generateSchemaAltersInternal
       \<lparr>types = [],
        tables = [(''t'', [\<lparr>name = ''a'', type = ''INT'', notNull = False, defaultValue = None\<rparr>,
                           \<lparr>name = ''a'', type = ''TEXT'', notNull = False, defaultValue = None\<rparr>])], typesProto = None, tablesProto = None\<rparr>
       \<lparr>types = [],
        tables = [(''t'', [\<lparr>name = ''a'', type = ''INT'', notNull = False, defaultValue = None\<rparr>,
                           \<lparr>name = ''a'', type = ''TEXT'', notNull = False, defaultValue = None\<rparr>])], typesProto = None, tablesProto = None\<rparr>
     = Inr [''ALTER TABLE t ALTER COLUMN a TYPE INT;'']"
  by code_simp

section \<open>Dropped tables: properties\<close>

lemma notDrop_literals:
  "\<not> isDropLine (''-- ERROR: '' @ x)"
  "\<not> isDropLine (''ALTER TYPE '' @ x)"
  "\<not> isDropLine (''ALTER TABLE '' @ x)"
  "\<not> isDropLine (''CREATE TYPE '' @ x)"
  "\<not> isDropLine (''CREATE TABLE '' @ x)"
  "\<not> isDropLine (''INSERT INTO '' @ x)"
  "\<not> isDropLine (''-- Migrate '' @ x)"
  by (simp_all add: isDropLine_def startsWith_def)

lemma typeChanges_notDrop:
  "typeChanges oldSchema ts = Inr cmds \<Longrightarrow> \<forall>c \<in> set cmds. \<not> isDropLine c"
proof (induction ts arbitrary: cmds)
  case Nil
  then show ?case by simp
next
  case (Cons e ts)
  obtain n t where e: "e = (n, t)" by (cases e)
  have en: "\<And>ov nv. \<forall>c \<in> set (enumChanges n ov nv). \<not> isDropLine c"
    using notDrop_literals(1)[of "''Cannot modify existing enum value in '' @ n @ [LF]"]
      notDrop_literals(2)
    by (auto simp: enumChanges_def)
  have comp: "\<not> isDropLine (''-- ERROR: Composite type '' @ n @ '' definition changed'')"
    using notDrop_literals(1)[of "''Composite type '' @ n @ '' definition changed''"] by simp
  from Cons.prems show ?case
    unfolding e
    using Cons.IH en comp
    by (auto split: option.splits typeDef.splits sum.splits if_splits)
qed

lemma detectRenames_notDrop:
  "\<forall>c \<in> set (renameCommands st). \<not> isDropLine c \<Longrightarrow>
   \<forall>c \<in> set (renameCommands (detectRenames news olds st)). \<not> isDropLine c"
proof (induction olds arbitrary: st)
  case Nil
  then show ?case by simp
next
  case (Cons e olds)
  obtain n cols where e: "e = (n, cols)" by (cases e)
  show ?case
    unfolding e detectRenames.simps
    using Cons.prems notDrop_literals(3)
    by (auto split: option.splits intro!: Cons.IH)
qed

lemma addColumns_notDrop:
  "addColumns t oc ncs = Inr cmds \<Longrightarrow> \<forall>c \<in> set cmds. \<not> isDropLine c"
proof (induction ncs arbitrary: cmds)
  case Nil
  then show ?case by simp
next
  case (Cons nc ncs)
  from Cons.prems show ?case
    using Cons.IH notDrop_literals(3)
    by (auto split: option.splits sum.splits if_splits)
qed

lemma modifyColumn_notDrop: "\<forall>c \<in> set (modifyColumn t oc nc). \<not> isDropLine c"
  using notDrop_literals(3)
  by (auto simp: modifyColumn_def alterTypeCommands_def split: option.splits)

lemma removeColumns_notDrop: "\<forall>c \<in> set (removeColumns t oc ncs). \<not> isDropLine c"
  using notDrop_literals(3) by (auto simp: removeColumns_def)

lemma changeTable_notDrop:
  "changeTable t oc ncs = Inr cmds \<Longrightarrow> \<forall>c \<in> set cmds. \<not> isDropLine c"
  using addColumns_notDrop[of t oc ncs] modifyColumn_notDrop[of t oc] removeColumns_notDrop[of t oc ncs]
  by (auto simp: changeTable_def split: sum.splits)

lemma changeTables_notDrop:
  "changeTables oldTables st tbls = Inr cmds \<Longrightarrow> \<forall>c \<in> set cmds. \<not> isDropLine c"
proof (induction tbls arbitrary: cmds)
  case Nil
  then show ?case by simp
next
  case (Cons e tbls)
  obtain n cols where e: "e = (n, cols)" by (cases e)
  from Cons.prems show ?case
    unfolding e
    using Cons.IH changeTable_notDrop
    by (fastforce split: sum.splits if_splits)
qed

lemma createType_notDrop: "\<forall>c \<in> set (createType oldTypes e). \<not> isDropLine c"
proof -
  obtain n t where e: "e = (n, t)" by (cases e)
  show ?thesis unfolding e using notDrop_literals(4) by (cases t) auto
qed

lemma createTable_notDrop: "\<forall>c \<in> set (createTable oldTables nm repl e). \<not> isDropLine c"
proof -
  obtain n cols where e: "e = (n, cols)" by (cases e)
  have mig: "\<And>ot. \<forall>c \<in> set (migrateData oldTables ot n cols). \<not> isDropLine c"
    using notDrop_literals(6)
      notDrop_literals(7)
    by (auto simp: migrateData_def Let_def)
  show ?thesis unfolding e createTable_def using notDrop_literals(5) mig
    by (auto split: option.splits)
qed

lemma oldTableMatched_detectRenames:
  "oldTableMatched st = A \<union> fst ` set (renameMap st) \<Longrightarrow>
   oldTableMatched (detectRenames news olds st) =
     A \<union> {n \<in> fst ` set olds. tableKnown news n}
       \<union> fst ` set (renameMap (detectRenames news olds st))"
proof (induction olds arbitrary: st A)
  case Nil
  then show ?case by simp
next
  case (Cons e olds)
  obtain n cols where e: "e = (n, cols)" by (cases e)
  show ?case
  proof (cases "tableKnown news n")
    case True
    let ?st = "st\<lparr>oldTableMatched := insert n (oldTableMatched st),
                 newTableMatched := insert n (newTableMatched st)\<rparr>"
    have "oldTableMatched ?st = insert n A \<union> fst ` set (renameMap ?st)"
      using Cons.prems by simp
    from Cons.IH[OF this] show ?thesis
      unfolding e using True by auto
  next
    case False
    show ?thesis
    proof (cases "fst (findBestMatch (1 / 2) cols (newTableMatched st) (tables news) (None, 0))")
      case None
      with False Cons.IH[OF Cons.prems] show ?thesis unfolding e by auto
    next
      case (Some b)
      show ?thesis
      proof (cases "b = []")
        case True
        with Some False Cons.IH[OF Cons.prems] show ?thesis unfolding e by auto
      next
        case nonempty: False
        let ?st = "st\<lparr>oldTableMatched := insert n (oldTableMatched st),
                        newTableMatched := insert b (newTableMatched st),
                        renameMap := renameMap st @ [(n, b)],
                        renameCommands := renameCommands st @
                          [''ALTER TABLE '' @ n @ '' RENAME TO '' @ b @ '';'']\<rparr>"
        have "oldTableMatched ?st = A \<union> fst ` set (renameMap ?st)"
          using Cons.prems by simp
        from Cons.IH[OF this] show ?thesis
          unfolding e using False Some nonempty by auto
      qed
    qed
  qed
qed

text \<open>
  What the drop loop does: the output of a diff that returns ends with one caution
  comment immediately followed by one \<open>DROP TABLE\<close> command for every old table that is
  not in \<^verbatim>\<open>oldTableMatched\<close>, in the order in which \<^verbatim>\<open>Object.keys\<close> enumerates the
  old tables, and no earlier line of the output is such a comment or command. An old
  table is in \<^verbatim>\<open>oldTableMatched\<close> if and only if its name reads as a table of the new
  schema (line 102, inherited properties included) or the rename detection renamed it.
\<close>

lemma dropped_tables_end_output:
  assumes ok: "generateSchemaAltersInternal oldSchema newSchema = Inr commands"
  shows "\<exists>earlier.
           commands =
             earlier
             @ concat (map (\<lambda>n. [''-- CAUTION: This will permanently delete table '' @ apos # n
                                  @ apos # '' and all its data!'',
                                 ''DROP TABLE '' @ n @ '';''])
                           (filter (\<lambda>n. n \<notin> oldTableMatched (matchTables oldSchema newSchema))
                                   (map fst (tables oldSchema))))
           \<and> (\<forall>c \<in> set earlier. \<not> isDropLine c)
           \<and> oldTableMatched (matchTables oldSchema newSchema) =
               {n \<in> fst ` set (tables oldSchema). tableKnown newSchema n}
               \<union> fst ` set (renameMap (matchTables oldSchema newSchema))"
proof -
  let ?st = "matchTables oldSchema newSchema"
  from ok obtain tc tbc where
    tc: "typeChanges oldSchema (types newSchema) = Inr tc"
    and tbc: "changeTables (tables oldSchema) ?st (tables newSchema) = Inr tbc"
    and cmds: "commands = (tc @ renameCommands ?st @ tbc
        @ concat (map (createType oldSchema) (types newSchema))
        @ concat (map (createTable (tables oldSchema) (newTableMatched ?st)
                         (tableReplacements oldSchema newSchema)) (tables newSchema)))
        @ dropTables (oldTableMatched ?st) (tables oldSchema)"
    unfolding generateSchemaAltersInternal_def
    by (auto simp: Let_def split: sum.splits)
  let ?earlier = "tc @ renameCommands ?st @ tbc
        @ concat (map (createType oldSchema) (types newSchema))
        @ concat (map (createTable (tables oldSchema) (newTableMatched ?st)
                         (tableReplacements oldSchema newSchema)) (tables newSchema))"
  have rn: "\<forall>c \<in> set (renameCommands ?st). \<not> isDropLine c"
    unfolding matchTables_def
    by (rule detectRenames_notDrop) (simp add: initialMatching_def)
  have e: "\<forall>c \<in> set ?earlier. \<not> isDropLine c"
    using typeChanges_notDrop[OF tc] rn changeTables_notDrop[OF tbc]
      createType_notDrop createTable_notDrop
    by auto
  have om: "oldTableMatched ?st =
               {n \<in> fst ` set (tables oldSchema). tableKnown newSchema n}
               \<union> fst ` set (renameMap ?st)"
    unfolding matchTables_def
    using oldTableMatched_detectRenames[of initialMatching "{}" newSchema "tables oldSchema"]
    by (simp add: initialMatching_def)
  have d: "dropTables (oldTableMatched ?st) (tables oldSchema) =
      concat (map (\<lambda>n. [''-- CAUTION: This will permanently delete table '' @ apos # n
                                  @ apos # '' and all its data!'',
                                 ''DROP TABLE '' @ n @ '';''])
                           (filter (\<lambda>n. n \<notin> oldTableMatched ?st)
                                   (map fst (tables oldSchema))))"
    by (simp add: dropTables_def dropTable_def cong: map_cong)
  show ?thesis using cmds e om d by blast
qed

text \<open>
  Claim C4 fails on the code. The comment above the drop loop (line 327) reads
  ``old tables not matched/renamed and not being replaced'', and the claim says the
  same: the source of a replacement match is not dropped. The replacement matching of
  lines 251-279 records the pair in \<^verbatim>\<open>tableReplacements\<close> only and adds nothing to
  \<^verbatim>\<open>oldTableMatched\<close>, the one set the drop loop tests (line 329). For the old text
  with the table \<open>o\<close> of seven columns and the new text with the table \<open>n\<close> of three of
  them, the score is \<open>3 / 7\<close>: \<open>o\<close> is not renamed, it is selected as the source of the
  replacement of \<open>n\<close>, its data is migrated, and it is dropped all the same.
\<close>

theorem replaced_table_dropped:
  "parseSchema ''CREATE TABLE o (a INT, b INT, c INT, d INT, e INT, f INT, g INT);''
   = Inr \<lparr>types = [],
          tables = [(''o'', map plainColumn [''a'', ''b'', ''c'', ''d'', ''e'', ''f'', ''g''])],
          typesProto = None, tablesProto = None\<rparr>
   \<and> parseSchema ''CREATE TABLE n (a INT, b INT, c INT);''
   = Inr \<lparr>types = [], tables = [(''n'', map plainColumn [''a'', ''b'', ''c''])],
          typesProto = None, tablesProto = None\<rparr>
   \<and> tableReplacements
       \<lparr>types = [],
        tables = [(''o'', map plainColumn [''a'', ''b'', ''c'', ''d'', ''e'', ''f'', ''g''])],
        typesProto = None, tablesProto = None\<rparr>
       \<lparr>types = [], tables = [(''n'', map plainColumn [''a'', ''b'', ''c''])],
        typesProto = None, tablesProto = None\<rparr>
     = [(''o'', ''n'')]
   \<and> renameMap
        (matchTables
          \<lparr>types = [],
           tables = [(''o'', map plainColumn [''a'', ''b'', ''c'', ''d'', ''e'', ''f'', ''g''])],
           typesProto = None, tablesProto = None\<rparr>
          \<lparr>types = [], tables = [(''n'', map plainColumn [''a'', ''b'', ''c''])],
           typesProto = None, tablesProto = None\<rparr>)
      = []
   \<and> generateSchemaAlters
       ''CREATE TABLE o (a INT, b INT, c INT, d INT, e INT, f INT, g INT);''
       ''CREATE TABLE n (a INT, b INT, c INT);''
     = Inr [''CREATE TABLE n ('' @ [LF] @ ''  a INT,'' @ [LF] @ ''  b INT,'' @ [LF] @ ''  c INT''
              @ [LF] @ '');'',
            ''-- Migrate data from 'o' to 'n'' @ [apos],
            ''INSERT INTO n (a, b, c) SELECT a, b, c FROM o;'',
            ''-- CAUTION: This will permanently delete table '' @ apos # ''o'' @ apos
              # '' and all its data!'',
            ''DROP TABLE o;'']"
  by code_simp

text \<open>
  The order of the drops is the order of \<^verbatim>\<open>Object.keys\<close>, not the order of
  declaration: the old table \<open>1\<close>, declared after \<open>b\<close>, is dropped before it. And an old
  table whose name is a property of \<^verbatim>\<open>Object.prototype\<close> reads as a table of every
  new schema (line 102), so it is never dropped.
\<close>

lemma drop_order_is_key_order:
  "generateSchemaAlters ''CREATE TABLE b (x INT); CREATE TABLE 1 (y INT); CREATE TABLE k (z INT);''
     ''CREATE TABLE k (z INT);''
   = Inr [''-- CAUTION: This will permanently delete table '' @ apos # ''1'' @ apos
            # '' and all its data!'',
          ''DROP TABLE 1;'',
          ''-- CAUTION: This will permanently delete table '' @ apos # ''b'' @ apos
            # '' and all its data!'',
          ''DROP TABLE b;'']"
  by code_simp

lemma inherited_name_not_dropped:
  "generateSchemaAlters ''CREATE TABLE constructor (x INT); CREATE TABLE k (z INT);''
     ''CREATE TABLE k (z INT);''
   = Inr []"
  by code_simp

section \<open>Changed column types: properties\<close>

text \<open>
  What \<^verbatim>\<open>type.replace(/\s+PRIMARY KEY$/, '')\<close> does: a type text that ends with white
  space and \<open>PRIMARY KEY\<close> loses both (all the white space before the qualifier), and
  any other type text is unchanged.
\<close>

lemma lits_Cons: "lits (c # p) = Seq (Lit c) (lits p)"
  by (simp add: lits_def seqs_def)

lemma lits_Nil: "lits [] = Eps"
  by (simp add: lits_def seqs_def)

lemma rx_match_lits:
  "rx_match (lits p) s caps = (if take (length p) s = p then [(drop (length p) s, caps)] else [])"
proof (induction p arbitrary: s)
  case Nil
  then show ?case by (simp add: lits_Nil)
next
  case (Cons c p)
  show ?case
  proof (cases s)
    case Nil
    then show ?thesis by (simp add: lits_Cons)
  next
    case (Cons x xs)
    then show ?thesis using Cons.IH[of xs] by (auto simp: lits_Cons)
  qed
qed

lemma star_space_Nil: "rx_match (Star Space) [] caps = [([], caps)]"
  by (subst rx_match.simps(11)) simp

lemma star_space_Cons:
  "rx_match (Star Space) (x # xs) caps =
     (if isSpace x then rx_match (Star Space) xs caps else []) @ [(x # xs, caps)]"
  by (subst rx_match.simps(11)) simp

lemma star_space_then:
  assumes k: "\<And>x xs caps. isSpace x \<Longrightarrow> rx_match r (x # xs) caps = []"
  shows "concat (map (\<lambda>(s', caps'). rx_match r s' caps') (rx_match (Star Space) s caps))
         = rx_match r (dropWhile isSpace s) caps"
proof (induction s)
  case Nil
  then show ?case by (simp add: star_space_Nil)
next
  case (Cons x xs)
  then show ?case by (simp add: star_space_Cons k)
qed

lemma lits_end_match:
  "rx_match (seqs [lits p, EndOfInput]) s caps = (if s = p then [([], caps)] else [])"
proof -
  have "(take (length p) s = p \<and> drop (length p) s = []) \<longleftrightarrow> s = p"
    by (metis append_Nil2 append_take_drop_id drop_all order_refl take_all)
  then show ?thesis by (auto simp: seqs_def rx_match_lits)
qed

lemma primaryKeySuffixRx_unfold:
  "primaryKeySuffixRx = Seq (Seq Space (Star Space)) (seqs [lits ''PRIMARY KEY'', EndOfInput])"
  by (simp add: primaryKeySuffixRx_def seqs_def Plus_def)

lemma primaryKeySuffix_match:
  "rx_match primaryKeySuffixRx s caps =
     (case s of
        [] \<Rightarrow> []
      | x # xs \<Rightarrow> if isSpace x \<and> dropWhile isSpace xs = ''PRIMARY KEY'' then [([], caps)] else [])"
proof (cases s)
  case Nil
  then show ?thesis by (simp add: primaryKeySuffixRx_unfold)
next
  case (Cons x xs)
  have k: "\<And>y ys c. isSpace y \<Longrightarrow> rx_match (seqs [lits ''PRIMARY KEY'', EndOfInput]) (y # ys) c = []"
    by (auto simp: lits_end_match isSpace_def)
  have "rx_match primaryKeySuffixRx (x # xs) caps =
      (if isSpace x
       then concat (map (\<lambda>(s', caps'). rx_match (seqs [lits ''PRIMARY KEY'', EndOfInput]) s' caps')
                        (rx_match (Star Space) xs caps))
       else [])"
    unfolding primaryKeySuffixRx_unfold
    by (simp del: rx_match.simps(9) add: rx_match.simps(9)[of "Seq Space (Star Space)"]
        rx_match.simps(9)[of Space] )
  also have "\<dots> = (if isSpace x
       then rx_match (seqs [lits ''PRIMARY KEY'', EndOfInput]) (dropWhile isSpace xs) caps
       else [])"
    using star_space_then[of "seqs [lits ''PRIMARY KEY'', EndOfInput]" xs caps, OF k] by simp
  finally show ?thesis using Cons by (simp add: lits_end_match)
qed


lemma primaryKeySuffix_exec:
  "rx_exec primaryKeySuffixRx s =
     (case s of
        [] \<Rightarrow> None
      | x # xs \<Rightarrow> if isSpace x \<and> dropWhile isSpace xs = ''PRIMARY KEY'' then Some ([], []) else None)"
  by (simp add: rx_exec_def primaryKeySuffix_match split: list.splits)

lemma dropWhile_eq_decompose:
  "dropWhile P xs = ys \<Longrightarrow> \<exists>ws. (\<forall>c \<in> set ws. P c) \<and> xs = ws @ ys"
  by (metis takeWhile_dropWhile_id set_takeWhileD)

lemma primaryKeySuffix_exec_Some:
  "rx_exec primaryKeySuffixRx s = Some m \<Longrightarrow>
   m = ([], []) \<and> (\<exists>ws. ws \<noteq> [] \<and> (\<forall>c \<in> set ws. isSpace c) \<and> s = ws @ ''PRIMARY KEY'')"
proof -
  assume h: "rx_exec primaryKeySuffixRx s = Some m"
  then obtain x xs where s: "s = x # xs" and x: "isSpace x"
    and d: "dropWhile isSpace xs = ''PRIMARY KEY''" and m: "m = ([], [])"
    by (auto simp: primaryKeySuffix_exec split: list.splits if_splits)
  from dropWhile_eq_decompose[OF d] obtain ws where
    ws: "\<forall>c \<in> set ws. isSpace c" "xs = ws @ ''PRIMARY KEY''" by blast
  have "x # ws \<noteq> [] \<and> (\<forall>c \<in> set (x # ws). isSpace c) \<and> s = (x # ws) @ ''PRIMARY KEY''"
    using s x ws by simp
  with m show ?thesis by blast
qed

lemma primaryKeySuffix_exec_spaces:
  assumes "ws \<noteq> []" "\<forall>c \<in> set ws. isSpace c"
  shows "rx_exec primaryKeySuffixRx (ws @ ''PRIMARY KEY'') = Some ([], [])"
proof -
  obtain w ws' where ws: "ws = w # ws'" using assms(1) by (cases ws) auto
  have "dropWhile isSpace (ws' @ ''PRIMARY KEY'') = dropWhile isSpace ''PRIMARY KEY''"
    using assms(2) ws by (intro dropWhile_append2) simp
  also have "\<dots> = ''PRIMARY KEY''" by (simp add: isSpace_def)
  finally show ?thesis using assms(2) ws by (simp add: primaryKeySuffix_exec)
qed

lemma rx_search_primaryKey_none:
  "\<not> (\<exists>base ws. ws \<noteq> [] \<and> (\<forall>c \<in> set ws. isSpace c) \<and> s = base @ ws @ ''PRIMARY KEY'') \<Longrightarrow>
   rx_search primaryKeySuffixRx front s = None"
proof (induction s arbitrary: front)
  case Nil
  then show ?case by (simp add: primaryKeySuffix_exec)
next
  case (Cons x xs)
  have e: "rx_exec primaryKeySuffixRx (x # xs) = None"
  proof (cases "rx_exec primaryKeySuffixRx (x # xs)")
    case None
    then show ?thesis .
  next
    case (Some m)
    from primaryKeySuffix_exec_Some[OF Some] obtain ws where
      "ws \<noteq> []" "\<forall>c \<in> set ws. isSpace c" "x # xs = [] @ ws @ ''PRIMARY KEY''" by auto
    with Cons.prems show ?thesis by blast
  qed
  have "\<not> (\<exists>base ws. ws \<noteq> [] \<and> (\<forall>c \<in> set ws. isSpace c) \<and> xs = base @ ws @ ''PRIMARY KEY'')"
  proof
    assume "\<exists>base ws. ws \<noteq> [] \<and> (\<forall>c \<in> set ws. isSpace c) \<and> xs = base @ ws @ ''PRIMARY KEY''"
    then obtain base ws where "ws \<noteq> []" "\<forall>c \<in> set ws. isSpace c"
      "x # xs = (x # base) @ ws @ ''PRIMARY KEY''" by auto
    with Cons.prems show False by blast
  qed
  from Cons.IH[OF this] e show ?case by simp
qed

lemma rx_search_primaryKey_some:
  assumes ws: "ws \<noteq> []" "\<forall>c \<in> set ws. isSpace c"
    and base: "base = [] \<or> \<not> isSpace (last base)"
  shows "rx_search primaryKeySuffixRx front (base @ ws @ ''PRIMARY KEY'')
         = Some (rev front @ base, [], [])"
  using base
proof (induction base arbitrary: front)
  case Nil
  obtain w ws' where w: "ws = w # ws'" using ws(1) by (cases ws) auto
  show ?case
    using primaryKeySuffix_exec_spaces[OF ws] unfolding w by simp
next
  case (Cons b base)
  have e: "rx_exec primaryKeySuffixRx (b # base @ ws @ ''PRIMARY KEY'') = None"
  proof (cases "rx_exec primaryKeySuffixRx (b # base @ ws @ ''PRIMARY KEY'')")
    case None
    then show ?thesis .
  next
    case (Some m)
    from primaryKeySuffix_exec_Some[OF Some] obtain ws' where
      ws': "\<forall>c \<in> set ws'. isSpace c" "b # base @ ws @ ''PRIMARY KEY'' = ws' @ ''PRIMARY KEY''"
      by blast
    have "((b # base) @ ws) @ ''PRIMARY KEY'' = ws' @ ''PRIMARY KEY''" using ws'(2) by simp
    then have "(b # base) @ ws = ws'" by (simp only: append_same_eq)
    then have "\<forall>c \<in> set (b # base). isSpace c" using ws'(1) by auto
    then have "isSpace (last (b # base))" using last_in_set[of "b # base"] by blast
    with Cons.prems show ?thesis by simp
  qed
  have "base = [] \<or> \<not> isSpace (last base)" using Cons.prems by (cases base) auto
  from Cons.IH[OF this, of "b # front"] e show ?case by simp
qed

lemma stripPrimaryKey_qualified:
  assumes "ws \<noteq> []" "\<forall>c \<in> set ws. isSpace c" "base = [] \<or> \<not> isSpace (last base)"
  shows "stripPrimaryKey (base @ ws @ ''PRIMARY KEY'') = base"
  using rx_search_primaryKey_some[OF assms, of "[]"]
  by (simp add: stripPrimaryKey_def rx_replace_def)

lemma stripPrimaryKey_unqualified:
  assumes "\<not> (\<exists>base ws. ws \<noteq> [] \<and> (\<forall>c \<in> set ws. isSpace c) \<and> t = base @ ws @ ''PRIMARY KEY'')"
  shows "stripPrimaryKey t = t"
  using rx_search_primaryKey_none[OF assms, of "[]"]
  by (simp add: stripPrimaryKey_def rx_replace_def)





subsection \<open>The source table of a matched table\<close>



lemma newTableMatched_detectRenames:
  "newTableMatched st = A \<union> snd ` set (renameMap st) \<Longrightarrow>
   newTableMatched (detectRenames news olds st) =
     A \<union> {n \<in> fst ` set olds. tableKnown news n}
       \<union> snd ` set (renameMap (detectRenames news olds st))"
proof (induction olds arbitrary: st A)
  case Nil
  then show ?case by simp
next
  case (Cons e olds)
  obtain n cols where e: "e = (n, cols)" by (cases e)
  show ?case
  proof (cases "tableKnown news n")
    case True
    let ?st = "st\<lparr>oldTableMatched := insert n (oldTableMatched st),
                 newTableMatched := insert n (newTableMatched st)\<rparr>"
    have "newTableMatched ?st = insert n A \<union> snd ` set (renameMap ?st)"
      using Cons.prems by simp
    from Cons.IH[OF this] show ?thesis
      unfolding e using True by auto
  next
    case False
    show ?thesis
    proof (cases "fst (findBestMatch (1 / 2) cols (newTableMatched st) (tables news) (None, 0))")
      case None
      with False Cons.IH[OF Cons.prems] show ?thesis unfolding e by auto
    next
      case (Some b)
      show ?thesis
      proof (cases "b = []")
        case True
        with Some False Cons.IH[OF Cons.prems] show ?thesis unfolding e by auto
      next
        case nonempty: False
        let ?st = "st\<lparr>oldTableMatched := insert n (oldTableMatched st),
                        newTableMatched := insert b (newTableMatched st),
                        renameMap := renameMap st @ [(n, b)],
                        renameCommands := renameCommands st @
                          [''ALTER TABLE '' @ n @ '' RENAME TO '' @ b @ '';'']\<rparr>"
        have "newTableMatched ?st = A \<union> snd ` set (renameMap ?st)"
          using Cons.prems by simp
        from Cons.IH[OF this] show ?thesis
          unfolding e using False Some nonempty by auto
      qed
    qed
  qed
qed

lemma renameMap_detectRenames_keys:
  "fst ` set (renameMap (detectRenames news olds st))
     \<subseteq> fst ` set (renameMap st) \<union> fst ` set olds"
proof (induction olds arbitrary: st)
  case Nil
  then show ?case by simp
next
  case (Cons e olds)
  obtain n cols where e: "e = (n, cols)" by (cases e)
  show ?case
  proof (cases "tableKnown news n")
    case True
    let ?st = "st\<lparr>oldTableMatched := insert n (oldTableMatched st),
                 newTableMatched := insert n (newTableMatched st)\<rparr>"
    from Cons.IH[of ?st] show ?thesis unfolding e using True by auto
  next
    case False
    show ?thesis
    proof (cases "fst (findBestMatch (1 / 2) cols (newTableMatched st) (tables news) (None, 0))")
      case None
      with False Cons.IH[of st] show ?thesis unfolding e by auto
    next
      case (Some b)
      show ?thesis
      proof (cases "b = []")
        case True
        with Some False Cons.IH[of st] show ?thesis unfolding e by auto
      next
        case nonempty: False
        let ?st = "st\<lparr>oldTableMatched := insert n (oldTableMatched st),
                        newTableMatched := insert b (newTableMatched st),
                        renameMap := renameMap st @ [(n, b)],
                        renameCommands := renameCommands st @
                          [''ALTER TABLE '' @ n @ '' RENAME TO '' @ b @ '';'']\<rparr>"
        from Cons.IH[of ?st] show ?thesis
          unfolding e using False Some nonempty by auto
      qed
    qed
  qed
qed

lemma newTableMatched_matchTables:
  "newTableMatched (matchTables oldSchema newSchema) =
     {n \<in> fst ` set (tables oldSchema). tableKnown newSchema n}
     \<union> snd ` set (renameMap (matchTables oldSchema newSchema))"
  unfolding matchTables_def
  using newTableMatched_detectRenames[of initialMatching "{}" newSchema "tables oldSchema"]
  by (simp add: initialMatching_def)

lemma renameMap_matchTables_keys:
  "fst ` set (renameMap (matchTables oldSchema newSchema)) \<subseteq> fst ` set (tables oldSchema)"
  unfolding matchTables_def
  using renameMap_detectRenames_keys[of newSchema "tables oldSchema" initialMatching]
  by (simp add: initialMatching_def)


lemma findOldName_None: "findOldName r t = None \<longleftrightarrow> t \<notin> snd ` set r"
proof (induction r)
  case Nil
  then show ?case by simp
next
  case (Cons e r)
  obtain a b where e: "e = (a, b)" by (cases e)
  show ?case using Cons.IH unfolding e by (cases "b = t") auto
qed

lemma findOldName_Some: "findOldName r t = Some oldName \<Longrightarrow> (oldName, t) \<in> set r"
  by (induction r) (auto split: if_splits)


text \<open>
  The name read at line 148 is an own key of \<^verbatim>\<open>oldSchema.tables\<close>: the old name of a
  rename, or the name of an old table that reads as a table of the new schema.
\<close>

lemma resolved_old_name_own:
  assumes "tableName \<in> newTableMatched (matchTables oldSchema newSchema)"
  shows "map_of (tables oldSchema)
           (case findOldName (renameMap (matchTables oldSchema newSchema)) tableName of
              Some oldName \<Rightarrow> oldName | None \<Rightarrow> tableName) \<noteq> None"
proof (cases "findOldName (renameMap (matchTables oldSchema newSchema)) tableName")
  case None
  then have "tableName \<notin> snd ` set (renameMap (matchTables oldSchema newSchema))"
    by (simp add: findOldName_None)
  with assms have "tableName \<in> fst ` set (tables oldSchema)"
    unfolding newTableMatched_matchTables by blast
  with None show ?thesis by (simp add: map_of_eq_None_iff)
next
  case (Some oldName)
  from findOldName_Some[OF Some] have "oldName \<in> fst ` set (renameMap (matchTables oldSchema newSchema))"
    by force
  with renameMap_matchTables_keys have "oldName \<in> fst ` set (tables oldSchema)" by blast
  with Some show ?thesis by (simp add: map_of_eq_None_iff)
qed

text \<open>The name read at line 310 is an own key of \<^verbatim>\<open>oldSchema.tables\<close> as well.\<close>

lemma detectReplacements_keys:
  "fst ` set (detectReplacements oldMatched newMatched newTables olds) \<subseteq> fst ` set olds"
proof (induction olds)
  case Nil
  then show ?case by simp
next
  case (Cons e olds)
  obtain n cols where e: "e = (n, cols)" by (cases e)
  from Cons.IH show ?case unfolding e by (auto split: option.splits)
qed

lemma replacement_source_own:
  assumes "findOldName (tableReplacements oldSchema newSchema) newTableName = Some oldTableName"
  shows "map_of (tables oldSchema) oldTableName \<noteq> None"
proof -
  from findOldName_Some[OF assms]
  have "oldTableName \<in> fst ` set (tableReplacements oldSchema newSchema)" by force
  then have "oldTableName \<in> fst ` set (tables oldSchema)"
    unfolding tableReplacements_def Let_def using detectReplacements_keys by blast
  then show ?thesis by (simp add: map_of_eq_None_iff)
qed






section \<open>The boundary operation: properties\<close>

lemma generateSchemaAltersTry_error:
  "generateSchemaAltersTry oldStatement newStatement = Inl e \<longleftrightarrow>
     parseSchema oldStatement = Inl e
     \<or> (\<exists>oldSchema. parseSchema oldStatement = Inr oldSchema \<and> parseSchema newStatement = Inl e)
     \<or> (\<exists>oldSchema newSchema.
           parseSchema oldStatement = Inr oldSchema \<and> parseSchema newStatement = Inr newSchema
           \<and> \<not> (tables oldSchema = [] \<and> types oldSchema = [] \<and> trim oldStatement \<noteq> [])
           \<and> \<not> (tables newSchema = [] \<and> types newSchema = [] \<and> trim newStatement \<noteq> [])
           \<and> generateSchemaAltersInternal oldSchema newSchema = Inl e)"
  unfolding generateSchemaAltersTry_def
  by (cases "parseSchema oldStatement"; cases "parseSchema newStatement") auto

text \<open>
  Claim C2. No error leaves \<open>generateSchemaAlters\<close>: for every pair of texts it
  returns a list. The three places of the \<^verbatim>\<open>try\<close> block that can raise are the parse
  of the old text, the parse of the new text, and the diff of the two parsed schemas,
  which runs when neither of the two early returns of lines 22-34 has been taken. When
  one of them raises an error (a thrown \<^verbatim>\<open>Error\<close> or the \<^verbatim>\<open>TypeError\<close> of the
  engine), the result is the one-element list holding the comment
  \<open>-- ERROR: <message>\<close>, and no command beside it.
\<close>

theorem generateSchemaAlters_catches:
  "(\<exists>commands. generateSchemaAlters oldStatement newStatement = Inr commands)
   \<and> (parseSchema oldStatement = Inl e \<longrightarrow>
      generateSchemaAlters oldStatement newStatement = Inr [''-- ERROR: '' @ message e])
   \<and> (parseSchema oldStatement = Inr oldSchema \<and> parseSchema newStatement = Inl e \<longrightarrow>
      generateSchemaAlters oldStatement newStatement = Inr [''-- ERROR: '' @ message e])
   \<and> (parseSchema oldStatement = Inr oldSchema \<and> parseSchema newStatement = Inr newSchema
       \<and> \<not> (tables oldSchema = [] \<and> types oldSchema = [] \<and> trim oldStatement \<noteq> [])
       \<and> \<not> (tables newSchema = [] \<and> types newSchema = [] \<and> trim newStatement \<noteq> [])
       \<and> generateSchemaAltersInternal oldSchema newSchema = Inl e \<longrightarrow>
      generateSchemaAlters oldStatement newStatement = Inr [''-- ERROR: '' @ message e])"
proof (intro conjI impI)
  show "\<exists>commands. generateSchemaAlters oldStatement newStatement = Inr commands"
    unfolding generateSchemaAlters_def
    by (cases "generateSchemaAltersTry oldStatement newStatement") auto
next
  assume "parseSchema oldStatement = Inl e"
  then have "generateSchemaAltersTry oldStatement newStatement = Inl e"
    unfolding generateSchemaAltersTry_error by blast
  then show "generateSchemaAlters oldStatement newStatement = Inr [''-- ERROR: '' @ message e]"
    by (simp add: generateSchemaAlters_def)
next
  assume "parseSchema oldStatement = Inr oldSchema \<and> parseSchema newStatement = Inl e"
  then have "generateSchemaAltersTry oldStatement newStatement = Inl e"
    unfolding generateSchemaAltersTry_error by blast
  then show "generateSchemaAlters oldStatement newStatement = Inr [''-- ERROR: '' @ message e]"
    by (simp add: generateSchemaAlters_def)
next
  assume "parseSchema oldStatement = Inr oldSchema \<and> parseSchema newStatement = Inr newSchema
       \<and> \<not> (tables oldSchema = [] \<and> types oldSchema = [] \<and> trim oldStatement \<noteq> [])
       \<and> \<not> (tables newSchema = [] \<and> types newSchema = [] \<and> trim newStatement \<noteq> [])
       \<and> generateSchemaAltersInternal oldSchema newSchema = Inl e"
  then have "generateSchemaAltersTry oldStatement newStatement = Inl e"
    unfolding generateSchemaAltersTry_error by blast
  then show "generateSchemaAlters oldStatement newStatement = Inr [''-- ERROR: '' @ message e]"
    by (simp add: generateSchemaAlters_def)
qed

text \<open>
  Instances: the old text does not parse; the new text does not parse; the diff throws
  for a new column that is \<open>NOT NULL\<close> without default; the diff raises the engine's
  \<^verbatim>\<open>TypeError\<close> for a new enum named \<open>toString\<close>, a name that every old schema
  inherits from \<^verbatim>\<open>Object.prototype\<close>.
\<close>

theorem generateSchemaAlters_catches_witness:
  "generateSchemaAlters ''CREATE TABLE person (id SERIAL PRIMARY KEY, name VARCHAR(100''
       ''CREATE TABLE person (id SERIAL PRIMARY KEY);''
     = Inr [''-- ERROR: Unbalanced parentheses: 2 opening, 0 closing'']
   \<and> generateSchemaAlters ''CREATE TABLE person (id SERIAL PRIMARY KEY);'' ''CREATE TABLE person ();''
     = Inr [''-- ERROR: Table 'person' has no columns defined'']
   \<and> generateSchemaAlters ''CREATE TABLE t (a INT);'' ''CREATE TABLE t (a INT, b INT NOT NULL);''
     = Inr [''-- ERROR: New column t.b is NOT NULL without default'']
   \<and> generateSchemaAlters ''CREATE TABLE k (z INT);''
        (''CREATE TYPE toString AS ENUM ('a'' @ [apos] @ '');'')
     = Inr [''-- ERROR: Cannot read properties of undefined (reading 'length''
            @ [apos] @ '')'']"
proof -
  let ?person = "\<lparr>types = [], tables = [(''person'', [\<lparr>name = ''id'',
                type = ''SERIAL PRIMARY KEY'', notNull = False, defaultValue = None\<rparr>])],
                typesProto = None, tablesProto = None\<rparr>"
  let ?t1 = "\<lparr>types = [], tables = [(''t'', [\<lparr>name = ''a'', type = ''INT'',
                notNull = False, defaultValue = None\<rparr>])], typesProto = None, tablesProto = None\<rparr>"
  let ?t2 = "\<lparr>types = [], tables = [(''t'', [\<lparr>name = ''a'', type = ''INT'',
                notNull = False, defaultValue = None\<rparr>, \<lparr>name = ''b'', type = ''INT'',
                notNull = True, defaultValue = None\<rparr>])], typesProto = None, tablesProto = None\<rparr>"
  let ?k = "\<lparr>types = [], tables = [(''k'', [\<lparr>name = ''z'', type = ''INT'',
                notNull = False, defaultValue = None\<rparr>])], typesProto = None, tablesProto = None\<rparr>"
  let ?ts = "\<lparr>types = [(''toString'', Enum [''a''])], tables = [],
                typesProto = None, tablesProto = None\<rparr>"
  have p1: "parseSchema ''CREATE TABLE person (id SERIAL PRIMARY KEY, name VARCHAR(100''
      = Inl (Error ''Unbalanced parentheses: 2 opening, 0 closing'')"
    by code_simp
  have p2: "parseSchema ''CREATE TABLE person (id SERIAL PRIMARY KEY);'' = Inr ?person
    \<and> parseSchema ''CREATE TABLE person ();''
      = Inl (Error ''Table 'person' has no columns defined'')"
    by code_simp
  have p3: "parseSchema ''CREATE TABLE t (a INT);'' = Inr ?t1
    \<and> parseSchema ''CREATE TABLE t (a INT, b INT NOT NULL);'' = Inr ?t2
    \<and> \<not> (tables ?t1 = [] \<and> types ?t1 = [] \<and> trim ''CREATE TABLE t (a INT);'' \<noteq> [])
    \<and> \<not> (tables ?t2 = [] \<and> types ?t2 = []
          \<and> trim ''CREATE TABLE t (a INT, b INT NOT NULL);'' \<noteq> [])
    \<and> generateSchemaAltersInternal ?t1 ?t2
      = Inl (Error ''New column t.b is NOT NULL without default'')"
    by code_simp
  have p4: "parseSchema ''CREATE TABLE k (z INT);'' = Inr ?k
    \<and> parseSchema (''CREATE TYPE toString AS ENUM ('a'' @ [apos] @ '');'') = Inr ?ts
    \<and> \<not> (tables ?k = [] \<and> types ?k = [] \<and> trim ''CREATE TABLE k (z INT);'' \<noteq> [])
    \<and> \<not> (tables ?ts = [] \<and> types ?ts = []
          \<and> trim (''CREATE TYPE toString AS ENUM ('a'' @ [apos] @ '');'') \<noteq> [])
    \<and> generateSchemaAltersInternal ?k ?ts
      = Inl (TypeError (''Cannot read properties of undefined (reading 'length''
                        @ [apos] @ '')''))"
    by code_simp
  show ?thesis
    using generateSchemaAlters_catches[of
        "''CREATE TABLE person (id SERIAL PRIMARY KEY, name VARCHAR(100''"
        "''CREATE TABLE person (id SERIAL PRIMARY KEY);''"
        "Error ''Unbalanced parentheses: 2 opening, 0 closing''"] p1
      generateSchemaAlters_catches[of "''CREATE TABLE person (id SERIAL PRIMARY KEY);''"
        "''CREATE TABLE person ();''"
        "Error ''Table 'person' has no columns defined''" ?person] p2
      generateSchemaAlters_catches[of "''CREATE TABLE t (a INT);''"
        "''CREATE TABLE t (a INT, b INT NOT NULL);''"
        "Error ''New column t.b is NOT NULL without default''" ?t1 ?t2] p3
      generateSchemaAlters_catches[of "''CREATE TABLE k (z INT);''"
        "''CREATE TYPE toString AS ENUM ('a'' @ [apos] @ '');''"
        "TypeError (''Cannot read properties of undefined (reading 'length''
                        @ [apos] @ '')'')" ?k ?ts] p4
    by simp
qed

text \<open>
  When an early return is taken the diff does not run, so the error it would raise is
  not raised: the old text \<open>x\<close> declares nothing, and the result is the comment of
  line 24, although the diff of the two parsed schemas raises.
\<close>

lemma early_return_before_diff:
  "generateSchemaAlters ''x'' (''CREATE TYPE toString AS ENUM ('a'' @ [apos] @ '');'')
   = Inr [''-- ERROR: Old schema appears to be invalid or incomplete. No valid CREATE TABLE or CREATE TYPE statements found.'']
   \<and> generateSchemaAltersInternal emptySchema
        \<lparr>types = [(''toString'', Enum [''a''])], tables = [],
         typesProto = None, tablesProto = None\<rparr>
     = Inl (TypeError (''Cannot read properties of undefined (reading 'length''
                       @ [apos] @ '')''))"
  by code_simp

section \<open>When the diff raises\<close>

text \<open>
  An error of the diff is the \<^verbatim>\<open>TypeError\<close> of line 62, for a new enum whose name
  reads in the old schema as a truthy value without \<^verbatim>\<open>values\<close> (an old composite
  type, or a property inherited from the prototype), or the error of line 157 for a
  column of a matched table that is new, is \<^verbatim>\<open>NOT NULL\<close> and has no default. When
  the type changes raise nothing, the diff raises exactly when there is such a column.
\<close>

lemma typeChanges_error:
  "typeChanges oldSchema ts = Inl e \<Longrightarrow>
   e = TypeError ''Cannot read properties of undefined (reading 'length')''
   \<and> (\<exists>typeName newValues. (typeName, Enum newValues) \<in> set ts
          \<and> truthyValue (typesGet oldSchema typeName)
          \<and> valuesProperty (typesGet oldSchema typeName) = None)"
proof (induction ts)
  case Nil
  then show ?case by simp
next
  case (Cons entry ts)
  obtain n t where entry: "entry = (n, t)" by (cases entry)
  from Cons.prems show ?case
    unfolding entry
    using Cons.IH
    by (auto split: option.splits typeDef.splits sum.splits if_splits)
qed

lemma addColumns_error_iff:
  "(\<exists>e. addColumns tableName oldColumns newColumns = Inl e) \<longleftrightarrow>
   (\<exists>c \<in> set newColumns. columnMapGet oldColumns (name c) = None
        \<and> notNull c \<and> \<not> truthy (defaultValue c))"
  by (induction newColumns) (auto split: option.splits sum.splits)

lemma addColumns_error_message:
  "addColumns tableName oldColumns newColumns = Inl e \<Longrightarrow>
   \<exists>c \<in> set newColumns. columnMapGet oldColumns (name c) = None
        \<and> notNull c \<and> \<not> truthy (defaultValue c)
        \<and> e = Error (''New column '' @ tableName @ ''.'' @ name c
                      @ '' is NOT NULL without default'')"
  by (induction newColumns) (auto split: option.splits sum.splits if_splits)

lemma changeTable_error_iff:
  "changeTable tableName oldColumns newColumns = Inl e \<longleftrightarrow>
   addColumns tableName oldColumns newColumns = Inl e"
  by (auto simp: changeTable_def split: sum.splits)

lemma changeTable_Inr:
  "changeTable tableName oldColumns newColumns = Inr c \<Longrightarrow>
   \<exists>added. addColumns tableName oldColumns newColumns = Inr added"
  by (auto simp: changeTable_def split: sum.splits)

lemma changeTables_error_iff:
  "(\<exists>e. changeTables oldTables st tbls = Inl e) \<longleftrightarrow>
   (\<exists>(tableName, newColumns) \<in> set tbls. tableName \<in> newTableMatched st
      \<and> (\<exists>e. addColumns tableName (resolveOldColumns oldTables (renameMap st) tableName)
                 newColumns = Inl e))"
proof (induction tbls)
  case Nil
  then show ?case by simp
next
  case (Cons entry tbls)
  obtain n cols where entry: "entry = (n, cols)" by (cases entry)
  show ?case
  proof (cases "n \<in> newTableMatched st")
    case False
    then show ?thesis unfolding entry using Cons.IH by auto
  next
    case True
    show ?thesis
    proof (cases "changeTable n (resolveOldColumns oldTables (renameMap st) n) cols")
      case (Inl e)
      then have "addColumns n (resolveOldColumns oldTables (renameMap st) n) cols = Inl e"
        by (simp add: changeTable_error_iff)
      with Inl True show ?thesis unfolding entry by auto
    next
      case (Inr c)
      from changeTable_Inr[OF Inr] obtain added where
        "addColumns n (resolveOldColumns oldTables (renameMap st) n) cols = Inr added" by blast
      then show ?thesis unfolding entry using True Inr Cons.IH by (auto split: sum.splits)
    qed
  qed
qed

lemma changeTables_error_message:
  "changeTables oldTables st tbls = Inl e \<Longrightarrow>
   \<exists>(tableName, newColumns) \<in> set tbls. tableName \<in> newTableMatched st
      \<and> addColumns tableName (resolveOldColumns oldTables (renameMap st) tableName)
            newColumns = Inl e"
proof (induction tbls)
  case Nil
  then show ?case by simp
next
  case (Cons entry tbls)
  obtain n cols where entry: "entry = (n, cols)" by (cases entry)
  from Cons.prems show ?case
    unfolding entry using Cons.IH
    by (auto simp: changeTable_error_iff split: sum.splits if_splits)
qed

lemma diff_raises_without_type_error:
  assumes "typeChanges oldSchema (types newSchema) = Inr typeCommands"
  shows "(\<exists>e. generateSchemaAltersInternal oldSchema newSchema = Inl e) \<longleftrightarrow>
     (\<exists>(tableName, newColumns) \<in> set (tables newSchema).
        tableName \<in> newTableMatched (matchTables oldSchema newSchema)
        \<and> (\<exists>c \<in> set newColumns.
              columnMapGet
                (resolveOldColumns (tables oldSchema)
                   (renameMap (matchTables oldSchema newSchema)) tableName)
                (name c) = None
              \<and> notNull c \<and> \<not> truthy (defaultValue c)))"
proof -
  have "(\<exists>e. generateSchemaAltersInternal oldSchema newSchema = Inl e) \<longleftrightarrow>
     (\<exists>e. changeTables (tables oldSchema) (matchTables oldSchema newSchema) (tables newSchema)
            = Inl e)"
    using assms by (auto simp: generateSchemaAltersInternal_def Let_def split: sum.splits)
  then show ?thesis
    unfolding changeTables_error_iff addColumns_error_iff .
qed

lemma diff_error_is_type_error_or_not_null:
  assumes "generateSchemaAltersInternal oldSchema newSchema = Inl e"
  shows "(e = TypeError ''Cannot read properties of undefined (reading 'length')''
          \<and> (\<exists>typeName newValues. (typeName, Enum newValues) \<in> set (types newSchema)
                \<and> truthyValue (typesGet oldSchema typeName)
                \<and> valuesProperty (typesGet oldSchema typeName) = None))
       \<or> (\<exists>(tableName, newColumns) \<in> set (tables newSchema).
            tableName \<in> newTableMatched (matchTables oldSchema newSchema)
            \<and> (\<exists>c \<in> set newColumns.
                  columnMapGet
                    (resolveOldColumns (tables oldSchema)
                       (renameMap (matchTables oldSchema newSchema)) tableName)
                    (name c) = None
                  \<and> notNull c \<and> \<not> truthy (defaultValue c)
                  \<and> e = Error (''New column '' @ tableName @ ''.'' @ name c
                                @ '' is NOT NULL without default'')))"
proof (cases "typeChanges oldSchema (types newSchema)")
  case (Inl e')
  with assms have "e' = e" by (simp add: generateSchemaAltersInternal_def)
  with typeChanges_error[OF Inl] show ?thesis by blast
next
  case (Inr tc)
  with assms have "changeTables (tables oldSchema) (matchTables oldSchema newSchema)
      (tables newSchema) = Inl e"
    by (auto simp: generateSchemaAltersInternal_def Let_def split: sum.splits)
  from changeTables_error_message[OF this] addColumns_error_message
  show ?thesis by fast
qed

text \<open>
  Claim C1. The diff raises in a second case, which the claim excludes: a type that is
  composite in the old schema and an enum in the new one. \<^verbatim>\<open>oldType.values\<close> is then
  \<^verbatim>\<open>undefined\<close> and line 62 raises a \<^verbatim>\<open>TypeError\<close>. Both schemas are parser
  output.
\<close>

theorem type_kind_change_raises:
  "generateSchemaAltersInternal
     \<lparr>types = [(''t'', Composite ''(a int)'')], tables = [], typesProto = None, tablesProto = None\<rparr>
     \<lparr>types = [(''t'', Enum [''a''])], tables = [], typesProto = None, tablesProto = None\<rparr>
   = Inl (TypeError ''Cannot read properties of undefined (reading 'length')'')
   \<and> parseSchema ''CREATE TYPE t AS (a int);''
     = Inr \<lparr>types = [(''t'', Composite ''(a int)'')], tables = [], typesProto = None, tablesProto = None\<rparr>
   \<and> parseSchema (''CREATE TYPE t AS ENUM ('a''  @ apos # '');'')
     = Inr \<lparr>types = [(''t'', Enum [''a''])], tables = [], typesProto = None, tablesProto = None\<rparr>"
  by code_simp

section \<open>Texts without declarations\<close>

text \<open>
  A text of white space, and a text of line comments that each end with a line feed,
  parse to the empty schema.
\<close>

lemma isSpace_plain: "isSpace c \<Longrightarrow> c \<noteq> CHR ''-'' \<and> c \<noteq> CHR 0x22 \<and> c \<noteq> CHR 0x60"
  by (auto simp: isSpace_def)

lemma rx_exec_commentRx_other: "x \<noteq> CHR ''-'' \<Longrightarrow> rx_exec commentRx (x # xs) = None"
  by (simp add: rx_exec_def commentRx_def seqs_def)

lemma replace_comment_indent:
  "\<forall>c \<in> set indent. isSpace c \<Longrightarrow>
   rx_replace_all commentRx [LF] (indent @ rest) = indent @ rx_replace_all commentRx [LF] rest"
proof (induction indent)
  case Nil
  then show ?case by simp
next
  case (Cons c indent)
  then have "c \<noteq> CHR ''-''" using isSpace_plain[of c] by simp
  then have "rx_exec commentRx (c # indent @ rest) = None" by (rule rx_exec_commentRx_other)
  then show ?case using Cons by simp
qed

lemma lazy_dot_cons:
  "rx_match (LazyStar Dot) (x # xs) caps =
     (x # xs, caps) # (if isLineTerminator x then [] else rx_match (LazyStar Dot) xs caps)"
  by (subst rx_match.simps(12)) simp

lemma lazy_dot_line_feed:
  "\<forall>c \<in> set body. \<not> isLineTerminator c \<Longrightarrow>
   \<exists>others. rx_match (Seq (LazyStar Dot) (Seq (Lit LF) Eps)) (body @ LF # rest) caps
            = (rest, caps) # others"
proof (induction body)
  case Nil
  then show ?case by (simp add: isLineTerminator_def lazy_dot_cons)
next
  case (Cons b body)
  then have b: "\<not> isLineTerminator b" "b \<noteq> LF" by (auto simp: isLineTerminator_def)
  from Cons obtain others where
    "rx_match (Seq (LazyStar Dot) (Seq (Lit LF) Eps)) (body @ LF # rest) caps
            = (rest, caps) # others" by auto
  then show ?case using b by (simp add: lazy_dot_cons)
qed

lemma rx_exec_commentRx:
  "\<forall>c \<in> set body. \<not> isLineTerminator c \<Longrightarrow>
   rx_exec commentRx (''--'' @ body @ LF # rest) = Some (rest, [])"
proof -
  assume "\<forall>c \<in> set body. \<not> isLineTerminator c"
  from lazy_dot_line_feed[OF this, of rest "[]"] obtain others where
    "rx_match (Seq (LazyStar Dot) (Seq (Lit LF) Eps)) (body @ LF # rest) []
            = (rest, []) # others" by blast
  then show ?thesis
    by (simp add: rx_exec_def commentRx_def seqs_def)
qed

lemma replace_comment_line:
  "\<forall>c \<in> set body. \<not> isLineTerminator c \<Longrightarrow>
   rx_replace_all commentRx [LF] (''--'' @ body @ LF # rest)
   = LF # rx_replace_all commentRx [LF] rest"
  using rx_exec_commentRx[of body rest] by simp

lemma replace_comment_lines:
  "\<forall>(indent, body) \<in> set ls. (\<forall>c \<in> set indent. isSpace c) \<and> (\<forall>c \<in> set body. \<not> isLineTerminator c) \<Longrightarrow>
   \<forall>c \<in> set trailing. isSpace c \<Longrightarrow>
   \<forall>c \<in> set (rx_replace_all commentRx [LF] (commentLines ls trailing)). isSpace c"
proof (induction ls)
  case Nil
  then show ?case
    using replace_comment_indent[of trailing "[]"] by simp
next
  case (Cons l ls)
  obtain indent body where l: "l = (indent, body)" by (cases l)
  have i: "\<forall>c \<in> set indent. isSpace c" and b: "\<forall>c \<in> set body. \<not> isLineTerminator c"
    using Cons.prems(1) l by auto
  have "rx_replace_all commentRx [LF] (commentLines (l # ls) trailing)
      = indent @ LF # rx_replace_all commentRx [LF] (commentLines ls trailing)"
    unfolding l using replace_comment_indent[OF i] replace_comment_line[OF b]
    by simp
  moreover have "isSpace LF" by (simp add: isSpace_def)
  ultimately show ?case using i Cons by auto
qed

lemma replace_quote_blank:
  "\<forall>c \<in> set s. isSpace c \<Longrightarrow> rx_replace_all quoteRx [] s = s"
proof (induction s)
  case Nil
  then show ?case by simp
next
  case (Cons c s)
  then have "c \<noteq> CHR 0x22 \<and> c \<noteq> CHR 0x60" using isSpace_plain[of c] by simp
  then have "rx_exec quoteRx (c # s) = None" by (simp add: rx_exec_def quoteRx_def)
  then show ?case using Cons by simp
qed

lemma trim_blank: "\<forall>c \<in> set s. isSpace c \<Longrightarrow> trim s = []"
proof -
  assume "\<forall>c \<in> set s. isSpace c"
  then have d: "dropWhile isSpace s = []" by (simp add: dropWhile_eq_Nil_conv)
  show ?thesis unfolding trim_def d by simp
qed

lemma parseSchema_comment_lines:
  assumes "\<forall>(indent, body) \<in> set ls.
             (\<forall>c \<in> set indent. isSpace c) \<and> (\<forall>c \<in> set body. \<not> isLineTerminator c)"
    and "\<forall>c \<in> set trailing. isSpace c"
  shows "parseSchema (commentLines ls trailing) = Inr \<lparr>types = [], tables = [], typesProto = None, tablesProto = None\<rparr>"
proof -
  let ?stripped = "rx_replace_all commentRx [LF] (commentLines ls trailing)"
  have blank: "\<forall>c \<in> set ?stripped. isSpace c"
    by (rule replace_comment_lines[OF assms])
  have "rx_replace_all quoteRx [] ?stripped = ?stripped"
    by (rule replace_quote_blank[OF blank])
  then have "cleanStatement (commentLines ls trailing) = trim ?stripped"
    by (simp add: cleanStatement_def)
  also have "\<dots> = []" by (rule trim_blank[OF blank])
  finally show ?thesis by (simp add: parseSchema_def emptySchema_def)
qed

lemma parseSchema_blank:
  "\<forall>c \<in> set statement. isSpace c \<Longrightarrow> parseSchema statement = Inr \<lparr>types = [], tables = [], typesProto = None, tablesProto = None\<rparr>"
  using parseSchema_comment_lines[of "[]" statement] by simp

text \<open>
  Claim C7. The expression that strips the comments (line 342) needs the line feed that
  ends the comment, so a comment on the last line of a text without a final line feed
  stays in the text: its table declaration is parsed, and its parentheses are counted.
  The same holds for a comment that ends with a carriage return and a line feed, since
  \<^verbatim>\<open>.\<close> does not match the carriage return. With the line feed alone the same text
  is an empty schema.
\<close>

theorem trailing_comment_not_stripped:
  "parseSchema ''-- CREATE TABLE t (a INT)''
     = Inr \<lparr>types = [],
            tables = [(''t'', [\<lparr>name = ''a'', type = ''INT'', notNull = False,
                               defaultValue = None\<rparr>])], typesProto = None, tablesProto = None\<rparr>
   \<and> parseSchema ''-- (''
     = Inl (Error ''Unbalanced parentheses: 1 opening, 0 closing'')
   \<and> parseSchema (''-- ('' @ [CHR 0x0D, LF])
     = Inl (Error ''Unbalanced parentheses: 1 opening, 0 closing'')
   \<and> parseSchema (''-- CREATE TABLE t (a INT)'' @ [LF]) = Inr \<lparr>types = [], tables = [], typesProto = None, tablesProto = None\<rparr>"
  by code_simp

section \<open>Enums without values\<close>

text \<open>
  The parser never builds an enum with an empty value list, and it never raises the
  error \<open>ENUM type '<name>' has no values\<close>: \<^verbatim>\<open>split\<close> returns at least one
  element.
\<close>

lemma rx_split_from_nonempty: "rx_split_from r cur s \<noteq> []"
  by (induction s arbitrary: cur) (auto split: option.splits)

lemma set_insertIndexKey: "set (insertIndexKey k v obj) = insert (k, v) (set obj)"
  by (induction k v obj rule: insertIndexKey.induct) auto

lemma set_setOwnKey: "set (setOwnKey obj k v) \<subseteq> insert (k, v) (set obj)"
  by (auto simp: setOwnKey_def set_insertIndexKey split: if_splits)

lemma enumsNonEmpty_setType:
  "enumsNonEmpty sch \<Longrightarrow> t \<noteq> Enum [] \<Longrightarrow> enumsNonEmpty (setType sch k t)"
  using set_setOwnKey[of "types sch" k t] by (fastforce simp: enumsNonEmpty_def setType_def)

lemma enumsNonEmpty_setTable:
  "enumsNonEmpty sch \<Longrightarrow> enumsNonEmpty (setTable sch k cols)"
  by (simp add: enumsNonEmpty_def setTable_def)

lemma parseCreateType_enums:
  "enumsNonEmpty sch \<Longrightarrow> parseCreateType sch s = Inr sch' \<Longrightarrow> enumsNonEmpty sch'"
  by (auto simp: parseCreateType_def Let_def rx_split_def rx_split_from_nonempty
      intro!: enumsNonEmpty_setType split: option.splits if_splits)

lemma parseCreateTable_enums:
  "enumsNonEmpty sch \<Longrightarrow> parseCreateTable sch s = Inr sch' \<Longrightarrow> enumsNonEmpty sch'"
  by (auto simp: parseCreateTable_def Let_def intro!: enumsNonEmpty_setTable
      split: option.splits if_splits sum.splits)

lemma parseStatement_enums:
  assumes e: "enumsNonEmpty sch" and p: "parseStatement sch stmt = Inr sch'"
  shows "enumsNonEmpty sch'"
proof (cases "stmt = []")
  case True
  with e p show ?thesis by (simp add: parseStatement_def)
next
  case False
  let ?s = "trim (rx_replace_all spacesRx '' '' stmt)"
  show ?thesis
  proof (cases "rx_test_start createTypeStartRx ?s")
    case True
    with False p have "parseCreateType sch ?s = Inr sch'"
      by (simp add: parseStatement_def Let_def)
    with e show ?thesis by (rule parseCreateType_enums)
  next
    case no: False
    with False p have "parseCreateTable sch ?s = Inr sch'"
      by (simp add: parseStatement_def Let_def)
    with e show ?thesis by (rule parseCreateTable_enums)
  qed
qed

lemma parseStatements_enums:
  "enumsNonEmpty sch \<Longrightarrow> parseStatements sch stmts = Inr sch' \<Longrightarrow> enumsNonEmpty sch'"
proof (induction stmts arbitrary: sch)
  case Nil
  then show ?case by simp
next
  case (Cons stmt stmts)
  from Cons.prems(2) obtain mid where
    m: "parseStatement sch stmt = Inr mid" and r: "parseStatements mid stmts = Inr sch'"
    by (auto split: sum.splits)
  from parseStatement_enums[OF Cons.prems(1) m] have "enumsNonEmpty mid" .
  from Cons.IH[OF this r] show ?case .
qed

lemma parseSchema_enumsNonEmpty:
  assumes p: "parseSchema statement = Inr sch"
  shows "enumsNonEmpty sch"
proof -
  have e: "enumsNonEmpty emptySchema" by (simp add: enumsNonEmpty_def emptySchema_def)
  show ?thesis
  proof (cases "cleanStatement statement = []")
    case True
    with p have "sch = emptySchema" by (simp add: parseSchema_def Let_def)
    with e show ?thesis by simp
  next
    case False
    with p have "parseStatements emptySchema
        (filter (\<lambda>s. s \<noteq> [])
           (map trim (rx_split statementSeparatorRx (cleanStatement statement)))) = Inr sch"
      by (simp add: parseSchema_def Let_def split: if_splits)
    with e show ?thesis by (rule parseStatements_enums)
  qed
qed

lemma parseSchema_enum_has_value:
  "parseSchema statement = Inr sch \<Longrightarrow> (typeName, Enum vs) \<in> set (types sch) \<Longrightarrow> vs \<noteq> []"
  using parseSchema_enumsNonEmpty[of statement sch] by (auto simp: enumsNonEmpty_def)

text \<open>
  The parser never stores \<^verbatim>\<open>__proto__\<close> as an own key: the assignment of that name
  always reaches the setter of \<^verbatim>\<open>Object.prototype\<close>.
\<close>

lemma setType_no_own_proto:
  assumes "''__proto__'' \<notin> fst ` set (types sch) \<and> ''__proto__'' \<notin> fst ` set (tables sch)"
  shows "''__proto__'' \<notin> fst ` set (types (setType sch k t))
         \<and> ''__proto__'' \<notin> fst ` set (tables (setType sch k t))"
proof (cases "k = ''__proto__''")
  case True
  have "map_of (types sch) ''__proto__'' = None"
    using assms by (simp add: map_of_eq_None_iff)
  with True assms show ?thesis by (simp add: setType_def)
next
  case False
  have "fst ` set (setOwnKey (types sch) k t) \<subseteq> insert k (fst ` set (types sch))"
    using set_setOwnKey[of "types sch" k t] by force
  with False assms show ?thesis by (auto simp: setType_def)
qed

lemma setTable_no_own_proto:
  assumes "''__proto__'' \<notin> fst ` set (types sch) \<and> ''__proto__'' \<notin> fst ` set (tables sch)"
  shows "''__proto__'' \<notin> fst ` set (types (setTable sch k cols))
         \<and> ''__proto__'' \<notin> fst ` set (tables (setTable sch k cols))"
proof (cases "k = ''__proto__''")
  case True
  have "map_of (tables sch) ''__proto__'' = None"
    using assms by (simp add: map_of_eq_None_iff)
  with True assms show ?thesis by (simp add: setTable_def)
next
  case False
  have "fst ` set (setOwnKey (tables sch) k cols) \<subseteq> insert k (fst ` set (tables sch))"
    using set_setOwnKey[of "tables sch" k cols] by force
  with False assms show ?thesis by (auto simp: setTable_def)
qed

lemma parseCreateType_result:
  "parseCreateType sch s = Inr sch' \<Longrightarrow> \<exists>k t. sch' = setType sch k t"
  by (auto simp: parseCreateType_def Let_def split: option.splits if_splits)

lemma parseCreateTable_result:
  "parseCreateTable sch s = Inr sch' \<Longrightarrow> sch' = sch \<or> (\<exists>k cols. sch' = setTable sch k cols)"
  by (auto simp: parseCreateTable_def Let_def split: option.splits if_splits sum.splits)

lemma parseStatement_no_own_proto:
  assumes inv: "''__proto__'' \<notin> fst ` set (types sch) \<and> ''__proto__'' \<notin> fst ` set (tables sch)"
    and p: "parseStatement sch stmt = Inr sch'"
  shows "''__proto__'' \<notin> fst ` set (types sch') \<and> ''__proto__'' \<notin> fst ` set (tables sch')"
proof (cases "stmt = []")
  case True
  with inv p show ?thesis by (simp add: parseStatement_def)
next
  case False
  let ?s = "trim (rx_replace_all spacesRx '' '' stmt)"
  show ?thesis
  proof (cases "rx_test_start createTypeStartRx ?s")
    case True
    with False p have "parseCreateType sch ?s = Inr sch'"
      by (simp add: parseStatement_def Let_def)
    from parseCreateType_result[OF this] obtain k t where "sch' = setType sch k t" by blast
    with setType_no_own_proto[OF inv] show ?thesis by simp
  next
    case no: False
    with False p have "parseCreateTable sch ?s = Inr sch'"
      by (simp add: parseStatement_def Let_def)
    from parseCreateTable_result[OF this] setTable_no_own_proto[OF inv] inv
    show ?thesis by auto
  qed
qed

lemma parseStatements_no_own_proto:
  "''__proto__'' \<notin> fst ` set (types sch) \<and> ''__proto__'' \<notin> fst ` set (tables sch) \<Longrightarrow>
   parseStatements sch stmts = Inr sch' \<Longrightarrow>
   ''__proto__'' \<notin> fst ` set (types sch') \<and> ''__proto__'' \<notin> fst ` set (tables sch')"
proof (induction stmts arbitrary: sch)
  case Nil
  then show ?case by simp
next
  case (Cons stmt stmts)
  from Cons.prems(2) obtain mid where
    m: "parseStatement sch stmt = Inr mid" and r: "parseStatements mid stmts = Inr sch'"
    by (auto split: sum.splits)
  from parseStatement_no_own_proto[OF Cons.prems(1) m] Cons.IH[OF _ r] show ?case by blast
qed

lemma parseSchema_no_own_proto:
  assumes p: "parseSchema statement = Inr sch"
  shows "''__proto__'' \<notin> fst ` set (types sch) \<and> ''__proto__'' \<notin> fst ` set (tables sch)"
proof -
  have e: "''__proto__'' \<notin> fst ` set (types emptySchema)
           \<and> ''__proto__'' \<notin> fst ` set (tables emptySchema)"
    by (simp add: emptySchema_def)
  show ?thesis
  proof (cases "cleanStatement statement = []")
    case True
    with p have "sch = emptySchema" by (simp add: parseSchema_def Let_def)
    with e show ?thesis by simp
  next
    case False
    with p have "parseStatements emptySchema
        (filter (\<lambda>s. s \<noteq> [])
           (map trim (rx_split statementSeparatorRx (cleanStatement statement)))) = Inr sch"
      by (simp add: parseSchema_def Let_def split: if_splits)
    with e show ?thesis by (rule parseStatements_no_own_proto)
  qed
qed

lemma parseConstraints_otherError:
  "parseConstraints tableName ts col = Inl e \<Longrightarrow> otherError e"
  by (induction tableName ts col rule: parseConstraints.induct)
     (auto simp: otherError_def Let_def split: if_splits)

lemma parseColumn_otherError: "parseColumn tableName def = Inl e \<Longrightarrow> otherError e"
  using parseConstraints_otherError
  by (auto simp: parseColumn_def Let_def otherError_def split: list.splits if_splits)

lemma parseColumns_otherError: "parseColumns tableName defs = Inl e \<Longrightarrow> otherError e"
  using parseColumn_otherError
  by (induction defs arbitrary: e) (auto split: sum.splits)

lemma parseCreateTable_otherError: "parseCreateTable sch s = Inl e \<Longrightarrow> otherError e"
  using parseColumns_otherError
  by (auto simp: parseCreateTable_def Let_def otherError_def split: option.splits if_splits sum.splits)

lemma parseCreateType_otherError: "parseCreateType sch s = Inl e \<Longrightarrow> otherError e"
  by (auto simp: parseCreateType_def Let_def otherError_def rx_split_def rx_split_from_nonempty
      split: option.splits if_splits)

lemma parseStatement_otherError: "parseStatement sch stmt = Inl e \<Longrightarrow> otherError e"
  using parseCreateType_otherError parseCreateTable_otherError
  by (auto simp: parseStatement_def Let_def split: if_splits)

lemma parseStatements_otherError: "parseStatements sch stmts = Inl e \<Longrightarrow> otherError e"
  using parseStatement_otherError
  by (induction stmts arbitrary: sch) (auto split: sum.splits)

lemma parseSchema_never_reports_empty_enum:
  "parseSchema statement
   \<noteq> Inl (Error (''ENUM type '' @ apos # typeName @ apos # '' has no values''))"
proof
  assume h: "parseSchema statement
     = Inl (Error (''ENUM type '' @ apos # typeName @ apos # '' has no values''))"
  then have "otherError (Error (''ENUM type '' @ apos # typeName @ apos # '' has no values''))"
    using parseStatements_otherError
    by (auto simp: parseSchema_def Let_def otherError_def split: if_splits)
  then show False by (simp add: otherError_def)
qed

text \<open>
  Claim C8. An enum declaration with an empty value list does not match the enum branch
  of the expression of line 369 (\<^verbatim>\<open>[^)]+\<close> needs one character), so the second
  branch takes \<^verbatim>\<open>ENUM ()\<close> as the definition of a composite type: no error is raised,
  and the test of line 378 is never true. The boundary operation reports nothing.
\<close>

theorem empty_enum_accepted:
  "parseSchema ''CREATE TYPE mood AS ENUM ();''
     = Inr \<lparr>types = [(''mood'', Composite ''ENUM ()'')], tables = [], typesProto = None, tablesProto = None\<rparr>
   \<and> generateSchemaAlters '''' ''CREATE TYPE mood AS ENUM ();'' = Inr []"
  by code_simp

end
